theory Spec2Isabelle
  imports Complex_Main
begin

section \<open>Python values used by \<^verbatim>\<open>app.py\<close>\<close>

text \<open>
  The exceptions the modelled code can raise.  Every raise is a value \<open>Inl e\<close> of a sum
  type; a normal result is \<open>Inr v\<close>.
\<close>

datatype error = KeyError | IndexError | ValueError | ZeroDivisionError

text \<open>
  A Python \<^verbatim>\<open>dict\<close> keeps its keys in insertion order, and the assignment policy reads
  that order, so a dict is an association list.  \<open>dict_set\<close> is \<^verbatim>\<open>d[k] = v\<close>: an
  existing key keeps its place, a new key goes to the end.  \<open>dict_get\<close> is
  \<^verbatim>\<open>d.get(k)\<close>, \<open>dict_item\<close> is \<^verbatim>\<open>d[k]\<close> (which raises on a missing key),
  \<open>dict_contains\<close> is \<^verbatim>\<open>k in d\<close> and \<open>dict_keys\<close> is \<^verbatim>\<open>list(d.keys())\<close>.
\<close>

type_synonym ('k, 'v) dict = "('k \<times> 'v) list"

fun dict_get :: "('k, 'v) dict \<Rightarrow> 'k \<Rightarrow> 'v option" where
  "dict_get [] k = None"
| "dict_get ((k', v) # d) k = (if k' = k then Some v else dict_get d k)"

fun dict_set :: "('k, 'v) dict \<Rightarrow> 'k \<Rightarrow> 'v \<Rightarrow> ('k, 'v) dict" where
  "dict_set [] k v = [(k, v)]"
| "dict_set ((k', v') # d) k v = (if k' = k then (k, v) # d else (k', v') # dict_set d k v)"

definition dict_keys :: "('k, 'v) dict \<Rightarrow> 'k list" where
  "dict_keys d = map fst d"

definition dict_contains :: "('k, 'v) dict \<Rightarrow> 'k \<Rightarrow> bool" where
  "dict_contains d k = (dict_get d k \<noteq> None)"

definition dict_item :: "('k, 'v) dict \<Rightarrow> 'k \<Rightarrow> error + 'v" where
  "dict_item d k = (case dict_get d k of None \<Rightarrow> Inl KeyError | Some v \<Rightarrow> Inr v)"

text \<open>\<^verbatim>\<open>xs.index(x)\<close>: the first position of \<open>x\<close>, ValueError when there is none.\<close>

fun list_index :: "'a list \<Rightarrow> 'a \<Rightarrow> error + nat" where
  "list_index [] x = Inl ValueError"
| "list_index (y # ys) x =
     (if y = x then Inr 0
      else (case list_index ys x of Inl e \<Rightarrow> Inl e | Inr i \<Rightarrow> Inr (Suc i)))"

text \<open>
  \<^verbatim>\<open>xs[i]\<close> on a list: positions \<open>0\<close> to \<open>len - 1\<close> from the front, \<open>-1\<close> down to
  \<open>- len\<close> from the back, IndexError for every other \<open>i\<close>.
\<close>

definition py_getitem :: "'a list \<Rightarrow> int \<Rightarrow> error + 'a" where
  "py_getitem xs i =
     (if 0 \<le> i \<and> i < int (length xs) then Inr (xs ! nat i)
      else if i < 0 \<and> - int (length xs) \<le> i then Inr (xs ! nat (int (length xs) + i))
      else Inl IndexError)"

text \<open>\<^verbatim>\<open>list(range(a, b))\<close>, empty when \<open>b \<le> a\<close>.\<close>

definition py_range :: "int \<Rightarrow> int \<Rightarrow> int list" where
  "py_range a b = [a..b - 1]"

text \<open>
  \<^verbatim>\<open>a / b\<close> on integers raises ZeroDivisionError for \<open>b = 0\<close>.  The quotient is a
  float in Python; the model keeps the exact rational, and \<open>py_round2\<close> is
  \<^verbatim>\<open>round(x, 2)\<close> on it (ties to even).  No property below depends on the digits of
  a quotient, only on whether the division raises.
\<close>

definition py_truediv :: "int \<Rightarrow> int \<Rightarrow> error + rat" where
  "py_truediv a b = (if b = 0 then Inl ZeroDivisionError else Inr (of_int a / of_int b))"

definition py_round2 :: "rat \<Rightarrow> rat" where
  "py_round2 x =
     (let y = x * 100; f = \<lfloor>y\<rfloor>; d = y - of_int f
      in of_int (if d < 1 / 2 then f else if 1 / 2 < d then f + 1
                 else if even f then f else f + 1) / 100)"

text \<open>\<^verbatim>\<open>str(i)\<close> on an integer: its decimal digits, with a minus sign when negative.\<close>

definition digit_char :: "nat \<Rightarrow> char" where
  "digit_char n = ''0123456789'' ! n"

fun str_nat :: "nat \<Rightarrow> string" where
  "str_nat n = (if n < 10 then [digit_char n] else str_nat (n div 10) @ [digit_char (n mod 10)])"

definition py_str :: "int \<Rightarrow> string" where
  "py_str i = (if i < 0 then CHR ''-'' # str_nat (nat (- i)) else str_nat (nat i))"

text \<open>
  \<^verbatim>\<open>s.strip()\<close> removes leading and trailing whitespace.  A \<open>char\<close> stands for a code
  point below 256; the whitespace among those, by \<^verbatim>\<open>str.isspace\<close>, is U+0009 to
  U+000D, U+001C to U+0020, U+0085 and U+00A0.
\<close>

definition is_space :: "char \<Rightarrow> bool" where
  "is_space c = (c \<in> set [CHR 0x09, CHR 0x0A, CHR 0x0B, CHR 0x0C, CHR 0x0D,
                          CHR 0x1C, CHR 0x1D, CHR 0x1E, CHR 0x1F, CHR 0x20,
                          CHR 0x85, CHR 0xA0])"

definition strip :: "string \<Rightarrow> string" where
  "strip s = rev (dropWhile is_space (rev (dropWhile is_space s)))"

section \<open>The progress store\<close>

text \<open>
  One entry of a user's \<^verbatim>\<open>translations\<close> dict, and the scalar values of the
  \<^verbatim>\<open>metadata\<close> dict (strings, and the integer age).
\<close>

record entry =
  English :: string
  Translation :: string
  Timestamp :: string

datatype mval = MStr string | MInt int

text \<open>
  A user record is a JSON object whose four keys may each be missing: a record written by
  the Metadata view for a new user has the key \<^verbatim>\<open>metadata\<close> only.  A field is
  \<open>None\<close> when its key is absent.  The field for the key \<^verbatim>\<open>translations\<close> is
  written \<open>translations'\<close>, the plain word being a keyword of Isabelle.
\<close>

record user_record =
  translations' :: "(string, entry) dict option"
  metadata :: "(string, mval) dict option"
  assigned :: "int list option"
  index :: "int option"

text \<open>The fields as the views read them: \<^verbatim>\<open>.get\<close> with its default.\<close>

definition get_assigned :: "user_record \<Rightarrow> int list" where
  "get_assigned details = (case assigned details of None \<Rightarrow> [] | Some a \<Rightarrow> a)"

definition get_index :: "user_record \<Rightarrow> int" where
  "get_index details = (case index details of None \<Rightarrow> 0 | Some i \<Rightarrow> i)"

definition get_metadata :: "user_record \<Rightarrow> (string, mval) dict" where
  "get_metadata details = (case metadata details of None \<Rightarrow> [] | Some m \<Rightarrow> m)"

definition get_translations :: "user_record \<Rightarrow> (string, entry) dict" where
  "get_translations details = (case translations' details of None \<Rightarrow> [] | Some t \<Rightarrow> t)"

type_synonym store = "(string, user_record) dict"

text \<open>The progress file \<^verbatim>\<open>user_progress.json\<close>: \<open>None\<close> while it does not exist.\<close>

type_synonym progress_file = "store option"

text \<open>The body of the loop of \<^verbatim>\<open>load_user_progress\<close>: its four tests, in order.\<close>

definition fill_defaults :: "user_record \<Rightarrow> user_record" where
  "fill_defaults details =
     (let details = (if translations' details = None
                     then details\<lparr>translations' := Some []\<rparr> else details);
          details = (if metadata details = None
                     then details\<lparr>metadata := Some []\<rparr> else details);
          details = (if assigned details = None
                     then details\<lparr>assigned := Some []\<rparr> else details);
          details = (if index details = None
                     then details\<lparr>index := Some 0\<rparr> else details)
      in details)"

definition load_user_progress :: "progress_file \<Rightarrow> store" where
  "load_user_progress file =
     (case file of
        Some data \<Rightarrow> map (\<lambda>(user, details). (user, fill_defaults details)) data
      | None \<Rightarrow> [])"

definition save_user_progress :: "store \<Rightarrow> progress_file" where
  "save_user_progress data = Some data"

section \<open>The views\<close>

text \<open>
  What a run of a view ends with.  Each run of the script is one call of a view function
  on the widget values of that run; it returns the progress file it leaves behind and
  either the exception that ended it or what it displayed.
\<close>

datatype view = MetadataForm | MetadataSaved | Completed | SentenceShown string
  | Warning | Submitted

subsection \<open>\<^verbatim>\<open>metadata_page\<close>\<close>

text \<open>
  The widgets return what the user entered: \<open>name\<close>, \<open>sex\<close>, \<open>age\<close>, \<open>gmail\<close>,
  \<open>country\<close>, and \<open>save\<close> for the button.  The one Python operation on the way that
  can raise is \<^verbatim>\<open>.index\<close> on the stored sex.  \<open>user_data\<close> is the record inside
  \<open>all_progress\<close> (or a new empty dict); it is written back by
  \<^verbatim>\<open>all_progress[username] = user_data\<close> before the save.
\<close>

definition empty_record :: user_record where
  "empty_record = \<lparr>translations' = None, metadata = None, assigned = None, index = None\<rparr>"

definition metadata_page ::
  "string \<Rightarrow> string \<Rightarrow> string \<Rightarrow> int \<Rightarrow> string \<Rightarrow> string \<Rightarrow> bool \<Rightarrow> progress_file
     \<Rightarrow> progress_file \<times> (error + view)" where
  "metadata_page username name sex age gmail country save file =
     (let all_progress = load_user_progress file;
          user_data = (case dict_get all_progress username of
                         None \<Rightarrow> empty_record | Some d \<Rightarrow> d);
          metadata0 = get_metadata user_data
      in case list_index [MStr ''Male'', MStr ''Female'', MStr ''Other'']
                (case dict_get metadata0 ''sex'' of None \<Rightarrow> MStr ''Male'' | Some v \<Rightarrow> v) of
           Inl e \<Rightarrow> (file, Inl e)
         | Inr _ \<Rightarrow>
             if save then
               (let user_data = user_data\<lparr>metadata := Some
                      [(''name'', MStr name), (''sex'', MStr sex), (''age'', MInt age),
                       (''gmail'', MStr gmail), (''country'', MStr country)]\<rparr>;
                    all_progress = dict_set all_progress username user_data
                in (save_user_progress all_progress, Inr MetadataSaved))
             else (file, Inr MetadataForm))"

subsection \<open>\<^verbatim>\<open>translation_page\<close>\<close>

definition new_record :: user_record where
  "new_record = \<lparr>translations' = Some [], metadata = Some [], assigned = Some [],
                 index = Some 0\<rparr>"

text \<open>Lines 90 to 96: a user with no record gets a new one, at the end of the store.\<close>

definition store_with_user :: "store \<Rightarrow> string \<Rightarrow> store" where
  "store_with_user all_progress username =
     (if \<not> dict_contains all_progress username
      then dict_set all_progress username new_record else all_progress)"

text \<open>
  Lines 100 to 108: the assignment, made when \<^verbatim>\<open>user_data.get("assigned")\<close> is falsy
  (the key is missing or the list is empty), and saved at once.
\<close>

definition translation_page_assign ::
  "string list \<Rightarrow> store \<Rightarrow> string \<Rightarrow> user_record \<Rightarrow> progress_file
     \<Rightarrow> error + (store \<times> user_record \<times> progress_file)" where
  "translation_page_assign sentences all_progress username user_data file =
     (if assigned user_data = None \<or> assigned user_data = Some [] then
        (case list_index (dict_keys all_progress) username of
           Inl e \<Rightarrow> Inl e
         | Inr user_index \<Rightarrow>
             (let start_idx = int user_index * 100;
                  end_idx = min (start_idx + 100) (int (length sentences));
                  user_data = user_data\<lparr>assigned := Some (py_range start_idx end_idx)\<rparr>;
                  all_progress = dict_set all_progress username user_data
              in Inr (all_progress, user_data, save_user_progress all_progress)))
      else Inr (all_progress, user_data, file))"

text \<open>
  Lines 110 to 147: the progress line (whose division is not guarded), the completion
  test, the current sentence, and the submission.  \<open>translation\<close> is the text area,
  \<open>submit\<close> the button, \<open>now\<close> the value of \<^verbatim>\<open>datetime.now().isoformat()\<close>.
\<close>

definition translation_page_render ::
  "string list \<Rightarrow> store \<Rightarrow> string \<Rightarrow> user_record \<Rightarrow> string \<Rightarrow> bool \<Rightarrow> string
     \<Rightarrow> progress_file \<Rightarrow> progress_file \<times> (error + view)" where
  "translation_page_render sentences all_progress username user_data translation submit now
       file =
     (case assigned user_data of
        None \<Rightarrow> (file, Inl KeyError)
      | Some assigned_indices \<Rightarrow>
          (let current_idx = get_index user_data;
               translated_count = int (length (get_translations user_data));
               total_assigned = int (length assigned_indices)
           in case py_truediv translated_count total_assigned of
                Inl e \<Rightarrow> (file, Inl e)
              | Inr _ \<Rightarrow>
                  if current_idx \<ge> total_assigned then (file, Inr Completed)
                  else
                    (case py_getitem assigned_indices current_idx of
                       Inl e \<Rightarrow> (file, Inl e)
                     | Inr sentence_idx \<Rightarrow>
                         (case py_getitem sentences sentence_idx of
                            Inl e \<Rightarrow> (file, Inl e)
                          | Inr sentence \<Rightarrow>
                              if submit then
                                (if strip translation = [] then (file, Inr Warning)
                                 else
                                   (let user_data = user_data
                                          \<lparr>translations' := Some
                                             (dict_set (get_translations user_data)
                                                (py_str sentence_idx)
                                              \<lparr>English = sentence,
                                               Translation = strip translation,
                                               Timestamp = now\<rparr>),
                                           index := Some (current_idx + 1)\<rparr>;
                                        all_progress = dict_set all_progress username user_data
                                    in (save_user_progress all_progress, Inr Submitted)))
                              else (file, Inr (SentenceShown sentence))))))"

text \<open>
  The whole view.  \<open>sentences\<close> is what \<^verbatim>\<open>load_sentences()\<close> returned for this run
  (the list is fetched again on every run).
\<close>

definition translation_page ::
  "string list \<Rightarrow> string \<Rightarrow> string \<Rightarrow> bool \<Rightarrow> string \<Rightarrow> progress_file
     \<Rightarrow> progress_file \<times> (error + view)" where
  "translation_page sentences username translation submit now file =
     (let all_progress = load_user_progress file;
          all_progress = store_with_user all_progress username
      in case dict_item all_progress username of
           Inl e \<Rightarrow> (file, Inl e)
         | Inr user_data \<Rightarrow>
             (case translation_page_assign sentences all_progress username user_data file of
                Inl e \<Rightarrow> (file, Inl e)
              | Inr (all_progress, user_data, file) \<Rightarrow>
                  translation_page_render sentences all_progress username user_data
                    translation submit now file))"

subsection \<open>\<^verbatim>\<open>admin_page\<close>: the progress table\<close>

record progress_row =
  User :: string
  Translated :: nat
  Assigned :: nat
  Progress :: rat

definition progress_pct :: "user_record \<Rightarrow> error + rat" where
  "progress_pct details =
     (let translations0 = get_translations details;
          assigned0 = get_assigned details
      in if assigned0 \<noteq> [] then
           (case py_truediv (int (length translations0)) (int (length assigned0)) of
              Inl e \<Rightarrow> Inl e
            | Inr q \<Rightarrow> Inr (py_round2 (q * 100)))
         else Inr 0)"

text \<open>The loop over \<^verbatim>\<open>data.items()\<close>; an exception in one row ends it.\<close>

fun progress_data :: "store \<Rightarrow> error + progress_row list" where
  "progress_data [] = Inr []"
| "progress_data ((user, details) # data) =
     (case progress_pct details of
        Inl e \<Rightarrow> Inl e
      | Inr p \<Rightarrow>
          (case progress_data data of
             Inl e \<Rightarrow> Inl e
           | Inr rows \<Rightarrow>
               Inr (\<lparr>User = user,
                     Translated = length (get_translations details),
                     Assigned = length (get_assigned details),
                     Progress = p\<rparr> # rows)))"

text \<open>The table a logged-in administrator gets (none when there is no user data).\<close>

definition admin_page :: "progress_file \<Rightarrow> error + progress_row list" where
  "admin_page file =
     (let data = load_user_progress file
      in if data = [] then Inr [] else progress_data data)"

section \<open>Sequences of runs\<close>

text \<open>
  The Metadata and Translate views are the only writers of the progress file.
  \<open>runs_to start file\<close>: some sequence of runs of the two views, started on the
  progress file \<open>start\<close>, leaves \<open>file\<close>.  Usernames, widget values and the sentence list of each run are
  arbitrary (the sentence list is fetched again on every run).  A progress file is
  reachable when such a sequence leads to it from the state in which the file does not
  exist yet.
\<close>

inductive runs_to :: "progress_file \<Rightarrow> progress_file \<Rightarrow> bool" for start where
  no_run: "runs_to start start"
| metadata_run:
    "runs_to start file \<Longrightarrow>
     runs_to start (fst (metadata_page username name sex age gmail country save file))"
| translation_run:
    "runs_to start file \<Longrightarrow>
     runs_to start (fst (translation_page sentences username translation submit now file))"

abbreviation reachable :: "progress_file \<Rightarrow> bool" where
  "reachable file \<equiv> runs_to None file"

section \<open>Loading and saving\<close>

lemma fill_defaults_fields:
  "translations' (fill_defaults r) = (if translations' r = None then Some [] else translations' r)"
  "metadata (fill_defaults r) = (if metadata r = None then Some [] else metadata r)"
  "assigned (fill_defaults r) = (if assigned r = None then Some [] else assigned r)"
  "index (fill_defaults r) = (if index r = None then Some 0 else index r)"
  by (simp_all add: fill_defaults_def Let_def)

lemma fill_defaults_id:
  "translations' r \<noteq> None \<Longrightarrow> metadata r \<noteq> None \<Longrightarrow> assigned r \<noteq> None
   \<Longrightarrow> index r \<noteq> None \<Longrightarrow> fill_defaults r = r"
  by (simp add: fill_defaults_def Let_def)

text \<open>
  C5.  Loading a progress file keeps its users in their order, and in every record each of
  the four fields is present afterwards: a field that was missing is the empty dict, the
  empty dict, the empty list and 0 for \<^verbatim>\<open>translations\<close>, \<^verbatim>\<open>metadata\<close>,
  \<^verbatim>\<open>assigned\<close> and \<^verbatim>\<open>index\<close>, and a field that was present is unchanged.  The load
  is a total function with no failing branch: no missing key can make it raise.
\<close>

theorem load_user_progress_defaults:
  "length (load_user_progress (Some data)) = length data \<and>
   (\<forall>i < length data.
      (let user = fst (data ! i); details = snd (data ! i);
           loaded = snd (load_user_progress (Some data) ! i)
       in fst (load_user_progress (Some data) ! i) = user \<and>
          translations' loaded =
            (case translations' details of None \<Rightarrow> Some [] | Some t \<Rightarrow> Some t) \<and>
          metadata loaded =
            (case metadata details of None \<Rightarrow> Some [] | Some m \<Rightarrow> Some m) \<and>
          assigned loaded =
            (case assigned details of None \<Rightarrow> Some [] | Some a \<Rightarrow> Some a) \<and>
          index loaded =
            (case index details of None \<Rightarrow> Some 0 | Some n \<Rightarrow> Some n)))"
  by (auto simp: load_user_progress_def Let_def fill_defaults_fields
           split: prod.splits option.splits)

theorem load_user_progress_defaults_witness:
  "(let data = [(''ade'', \<lparr>translations' = None, metadata = Some [(''name'', MStr ''Ade'')],
                          assigned = None, index = Some 3\<rparr>)]
    in (0::nat) < length data \<and>
       load_user_progress (Some data) =
         [(''ade'', \<lparr>translations' = Some [], metadata = Some [(''name'', MStr ''Ade'')],
                     assigned = Some [], index = Some 3\<rparr>)])"
  using load_user_progress_defaults
    [of "[(''ade'', \<lparr>translations' = None, metadata = Some [(''name'', MStr ''Ade'')],
                     assigned = None, index = Some 3\<rparr>)]"]
  by (simp add: load_user_progress_def fill_defaults_def)

text \<open>
  C6.  A store in which every record has all four fields is read and written back
  unchanged: the file after loading and saving holds the same users, in the same order,
  with the same fields.
\<close>

theorem load_save_roundtrip:
  assumes "\<forall>(user, details) \<in> set data.
             translations' details \<noteq> None \<and> metadata details \<noteq> None \<and>
             assigned details \<noteq> None \<and> index details \<noteq> None"
  shows "save_user_progress (load_user_progress (Some data)) = Some data"
proof -
  have "map (\<lambda>(user, details). (user, fill_defaults details)) data = data"
    using assms by (induction data) (auto simp: fill_defaults_id)
  then show ?thesis
    by (simp add: save_user_progress_def load_user_progress_def)
qed

theorem load_save_roundtrip_witness:
  "save_user_progress (load_user_progress (Some
     [(''ade'', \<lparr>translations' = Some [], metadata = Some [], assigned = Some [0, 1],
                 index = Some 1\<rparr>),
      (''bola'', \<lparr>translations' = Some [], metadata = Some [(''age'', MInt 30)],
                  assigned = Some [], index = Some 0\<rparr>)]))
   = Some
     [(''ade'', \<lparr>translations' = Some [], metadata = Some [], assigned = Some [0, 1],
                 index = Some 1\<rparr>),
      (''bola'', \<lparr>translations' = Some [], metadata = Some [(''age'', MInt 30)],
                  assigned = Some [], index = Some 0\<rparr>)]"
  by (rule load_save_roundtrip) simp

section \<open>Dictionaries, positions and ranges\<close>

lemma dict_get_set: "dict_get (dict_set d k v) k' = (if k' = k then Some v else dict_get d k')"
  by (induction d) auto

lemma dict_keys_set:
  "dict_keys (dict_set d k v) = (if dict_get d k = None then dict_keys d @ [k] else dict_keys d)"
  by (induction d) (auto simp: dict_keys_def split: if_splits)

lemma dict_get_None_keys: "dict_get d k = None \<longleftrightarrow> k \<notin> set (dict_keys d)"
  by (induction d) (auto simp: dict_keys_def split: if_splits)

lemma dict_set_set: "dict_set (dict_set d k v) k w = dict_set d k w"
  by (induction d) auto

lemma length_dict_set:
  "length (dict_set d k v) = (if dict_get d k = None then Suc (length d) else length d)"
  by (induction d) (auto split: if_splits)

lemma dict_set_absent: "dict_get d k = None \<Longrightarrow> dict_set d k v = d @ [(k, v)]"
  by (induction d) (auto split: if_splits)

lemma list_index_first:
  "x \<in> set xs \<Longrightarrow>
   \<exists>p. list_index xs x = Inr p \<and> p < length xs \<and> xs ! p = x \<and> (\<forall>q<p. xs ! q \<noteq> x)"
proof (induction xs)
  case Nil
  then show ?case by simp
next
  case (Cons y ys)
  show ?case
  proof (cases "y = x")
    case True
    then show ?thesis by simp
  next
    case False
    with Cons obtain p where p: "list_index ys x = Inr p" "p < length ys" "ys ! p = x"
      "\<forall>q<p. ys ! q \<noteq> x" by auto
    have "\<forall>q<Suc p. (y # ys) ! q \<noteq> x"
      using False p(4) by (auto simp: nth_Cons split: nat.splits)
    with False p show ?thesis by simp
  qed
qed

lemma list_index_append_new: "x \<notin> set xs \<Longrightarrow> list_index (xs @ [x]) x = Inr (length xs)"
  by (induction xs) auto

lemma length_py_range: "length (py_range a b) = nat (b - a)"
  by (simp add: py_range_def)

lemma nth_py_range: "i < nat (b - a) \<Longrightarrow> py_range a b ! i = a + int i"
  by (simp add: py_range_def)

lemma py_range_nat:
  assumes "0 \<le> a"
  shows "py_range a b = map int [nat a ..< nat b]"
proof (rule nth_equalityI)
  show len: "length (py_range a b) = length (map int [nat a ..< nat b])"
    using assms by (simp add: length_py_range)
  fix i assume "i < length (py_range a b)"
  then have i: "i < nat (b - a)" by (simp add: length_py_range)
  then have "i < nat b - nat a" using assms by linarith
  then have "map int [nat a ..< nat b] ! i = int (nat a + i)" by simp
  then show "py_range a b ! i = map int [nat a ..< nat b] ! i"
    using i assms by (simp add: nth_py_range)
qed

section \<open>The administrator's progress table\<close>

lemma progress_pct_total:
  "\<exists>p. progress_pct details = Inr p \<and> (get_assigned details = [] \<longrightarrow> p = 0)"
  by (simp add: progress_pct_def Let_def py_truediv_def)

lemma progress_data_rows:
  "\<exists>rows. progress_data data = Inr rows \<and> length rows = length data \<and>
     (\<forall>i < length data. User (rows ! i) = fst (data ! i) \<and>
        (get_assigned (snd (data ! i)) = [] \<longrightarrow> Progress (rows ! i) = 0))"
proof (induction data)
  case Nil
  then show ?case by simp
next
  case (Cons ud data)
  obtain user details where ud: "ud = (user, details)" by (cases ud)
  obtain p where p: "progress_pct details = Inr p" "get_assigned details = [] \<longrightarrow> p = 0"
    using progress_pct_total by blast
  from Cons obtain rows where rows: "progress_data data = Inr rows" "length rows = length data"
    "\<forall>i < length data. User (rows ! i) = fst (data ! i) \<and>
        (get_assigned (snd (data ! i)) = [] \<longrightarrow> Progress (rows ! i) = 0)" by blast
  show ?case
    using p rows unfolding ud by (auto simp: nth_Cons split: nat.splits)
qed

text \<open>
  C7.  The progress table of the Admin view is always produced: no record makes the
  percentage raise (the division is made only for a non-empty \<^verbatim>\<open>assigned\<close>).  It has
  one row per user, in the order of the store, and the row of a user whose
  \<^verbatim>\<open>assigned\<close> list is empty reports 0.
\<close>

theorem admin_page_progress:
  "\<exists>rows. admin_page file = Inr rows \<and>
     length rows = length (load_user_progress file) \<and>
     (\<forall>i < length rows.
        User (rows ! i) = fst (load_user_progress file ! i) \<and>
        (get_assigned (snd (load_user_progress file ! i)) = [] \<longrightarrow> Progress (rows ! i) = 0))"
proof (cases "load_user_progress file = []")
  case True
  then show ?thesis by (simp add: admin_page_def)
next
  case False
  then show ?thesis
    using progress_data_rows [of "load_user_progress file"]
    by (auto simp: admin_page_def Let_def)
qed

theorem admin_page_progress_witness:
  "admin_page (Some [(''ade'', \<lparr>translations' = Some [], metadata = Some [], assigned = Some [],
                               index = Some 0\<rparr>)])
   = Inr [\<lparr>User = ''ade'', Translated = 0, Assigned = 0, Progress = 0\<rparr>]"
  using admin_page_progress
    [of "Some [(''ade'', \<lparr>translations' = Some [], metadata = Some [], assigned = Some [],
                          index = Some 0\<rparr>)]"]
  by (simp add: admin_page_def load_user_progress_def fill_defaults_def progress_pct_def
        get_assigned_def get_translations_def)

section \<open>The Translate view\<close>

text \<open>
  C2.  Fifty sentences, one user \<open>ade\<close> holding the indices 0 to 49, and a second user
  \<open>bola\<close> who opens the Translate view for the first time: the start index 100 is past
  the end, the empty assignment is stored, and the run then ends in ZeroDivisionError at
  the progress line, before the completion test is reached.
\<close>

theorem translation_page_division_by_zero:
  "translation_page (replicate 50 ''s'') ''bola'' [] False []
     (Some [(''ade'', \<lparr>translations' = Some [], metadata = Some [],
                       assigned = Some (py_range 0 50), index = Some 0\<rparr>)])
   = (Some [(''ade'', \<lparr>translations' = Some [], metadata = Some [],
                        assigned = Some (py_range 0 50), index = Some 0\<rparr>),
            (''bola'', \<lparr>translations' = Some [], metadata = Some [],
                         assigned = Some [], index = Some 0\<rparr>)],
      Inl ZeroDivisionError)"
  by (simp add: translation_page_def store_with_user_def load_user_progress_def fill_defaults_def
        dict_contains_def
        new_record_def dict_item_def translation_page_assign_def dict_keys_def
        translation_page_render_def save_user_progress_def py_truediv_def py_range_def
        get_translations_def get_index_def Let_def)

subsection \<open>The run of the view, step by step\<close>

lemma get_assigned_empty: "get_assigned r = [] \<longleftrightarrow> (assigned r = None \<or> assigned r = Some [])"
  by (simp add: get_assigned_def split: option.splits)

lemma dict_get_load:
  "dict_get (load_user_progress (Some data)) v = map_option fill_defaults (dict_get data v)"
  by (induction data) (auto simp: load_user_progress_def)

lemma dict_keys_load: "dict_keys (load_user_progress (Some data)) = dict_keys data"
  by (induction data) (auto simp: load_user_progress_def dict_keys_def)

lemma load_None: "load_user_progress None = []"
  by (simp add: load_user_progress_def)

lemma dict_get_store_with_user:
  "dict_get (store_with_user d u) v =
     (if v = u then Some (case dict_get d u of None \<Rightarrow> new_record | Some r \<Rightarrow> r) else dict_get d v)"
  by (auto simp: store_with_user_def dict_contains_def dict_get_set)

lemma dict_keys_store_with_user:
  "dict_keys (store_with_user d u) = (if dict_get d u = None then dict_keys d @ [u] else dict_keys d)"
  by (auto simp: store_with_user_def dict_contains_def dict_keys_set)

lemma translation_page_unfold:
  assumes "dict_get (store_with_user (load_user_progress file) u) u = Some ud"
      and "translation_page_assign s (store_with_user (load_user_progress file) u) u ud file
             = Inr (ap2, ud2, f2)"
  shows "translation_page s u t sub now file = translation_page_render s ap2 u ud2 t sub now f2"
  using assms by (simp add: translation_page_def dict_item_def Let_def)

lemma translation_page_assign_cases:
  assumes "dict_get ap u = Some ud"
  shows "\<exists>p. list_index (dict_keys ap) u = Inr p \<and> p < length ap \<and> dict_keys ap ! p = u \<and>
           (\<forall>q<p. dict_keys ap ! q \<noteq> u) \<and>
           translation_page_assign s ap u ud f =
             (if get_assigned ud = [] then
                Inr (dict_set ap u (ud\<lparr>assigned := Some (py_range (int p * 100)
                                        (min (int p * 100 + 100) (int (length s))))\<rparr>),
                     ud\<lparr>assigned := Some (py_range (int p * 100)
                                        (min (int p * 100 + 100) (int (length s))))\<rparr>,
                     Some (dict_set ap u (ud\<lparr>assigned := Some (py_range (int p * 100)
                                        (min (int p * 100 + 100) (int (length s))))\<rparr>)))
              else Inr (ap, ud, f))"
proof -
  have mem: "u \<in> set (dict_keys ap)" using assms dict_get_None_keys [of ap u] by simp
  obtain p where p: "list_index (dict_keys ap) u = Inr p" "p < length (dict_keys ap)"
      "dict_keys ap ! p = u" "\<forall>q<p. dict_keys ap ! q \<noteq> u"
    using list_index_first [OF mem] by (elim exE conjE)
  have len: "p < length ap" using p(2) by (simp add: dict_keys_def)
  have run: "translation_page_assign s ap u ud f =
             (if get_assigned ud = [] then
                Inr (dict_set ap u (ud\<lparr>assigned := Some (py_range (int p * 100)
                                        (min (int p * 100 + 100) (int (length s))))\<rparr>),
                     ud\<lparr>assigned := Some (py_range (int p * 100)
                                        (min (int p * 100 + 100) (int (length s))))\<rparr>,
                     Some (dict_set ap u (ud\<lparr>assigned := Some (py_range (int p * 100)
                                        (min (int p * 100 + 100) (int (length s))))\<rparr>)))
              else Inr (ap, ud, f))"
  proof (cases "get_assigned ud = []")
    case True
    then have "assigned ud = None \<or> assigned ud = Some []" by (simp add: get_assigned_empty)
    then show ?thesis
      unfolding translation_page_assign_def
      by (simp add: True p(1) Let_def save_user_progress_def)
  next
    case False
    then have "\<not> (assigned ud = None \<or> assigned ud = Some [])" by (simp add: get_assigned_empty)
    then show ?thesis
      unfolding translation_page_assign_def by (auto simp: False)
  qed
  show ?thesis
    by (rule exI [of _ p]) (intro conjI p(1) len p(3) p(4) run)
qed

lemma translation_page_render_cases:
  "translation_page_render s ap u ud t sub now f =
     (case assigned ud of
        None \<Rightarrow> (f, Inl KeyError)
      | Some as \<Rightarrow>
          if as = [] then (f, Inl ZeroDivisionError)
          else if int (length as) \<le> get_index ud then (f, Inr Completed)
          else (case py_getitem as (get_index ud) of
                  Inl e \<Rightarrow> (f, Inl e)
                | Inr idx \<Rightarrow>
                    (case py_getitem s idx of
                       Inl e \<Rightarrow> (f, Inl e)
                     | Inr sentence \<Rightarrow>
                         if \<not> sub then (f, Inr (SentenceShown sentence))
                         else if strip t = [] then (f, Inr Warning)
                         else (Some (dict_set ap u
                                 (ud\<lparr>translations' := Some (dict_set (get_translations ud)
                                        (py_str idx)
                                        \<lparr>English = sentence, Translation = strip t,
                                         Timestamp = now\<rparr>),
                                      index := Some (get_index ud + 1)\<rparr>)),
                               Inr Submitted))))"
  by (simp add: translation_page_render_def py_truediv_def save_user_progress_def Let_def
           split: option.splits sum.splits)

lemma translation_page_render_file:
  "fst (translation_page_render s ap u ud t sub now f) = f \<or>
   (\<exists>as idx sentence.
      assigned ud = Some as \<and> as \<noteq> [] \<and> get_index ud < int (length as) \<and>
      py_getitem as (get_index ud) = Inr idx \<and> py_getitem s idx = Inr sentence \<and>
      sub \<and> strip t \<noteq> [] \<and>
      translation_page_render s ap u ud t sub now f =
        (Some (dict_set ap u
           (ud\<lparr>translations' := Some (dict_set (get_translations ud) (py_str idx)
                    \<lparr>English = sentence, Translation = strip t, Timestamp = now\<rparr>),
                index := Some (get_index ud + 1)\<rparr>)),
         Inr Submitted))"
  by (simp add: translation_page_render_cases split: option.splits sum.splits)

lemma assigned_range_nat:
  "py_range (int p * 100) (min (int p * 100 + 100) (int n))
     = map int [100 * p ..< min (100 * p + 100) n]"
proof -
  have a: "nat (int p * 100) = 100 * p" by simp
  have b: "nat (min (int p * 100 + 100) (int n)) = min (100 * p + 100) n" by simp
  show ?thesis
    using py_range_nat [of "int p * 100" "min (int p * 100 + 100) (int n)"]
    unfolding a b by simp
qed

lemma get_assigned_new_record: "get_assigned new_record = []"
  by (simp add: get_assigned_def new_record_def)

lemma translation_page_first_visit:
  assumes empty: "get_assigned (case dict_get (load_user_progress file) u of
                     None \<Rightarrow> new_record | Some r \<Rightarrow> r) = []"
  shows "\<exists>p store' r'.
           list_index (dict_keys (store_with_user (load_user_progress file) u)) u = Inr p \<and>
           p < length (dict_keys (store_with_user (load_user_progress file) u)) \<and>
           dict_keys (store_with_user (load_user_progress file) u) ! p = u \<and>
           (\<forall>q<p. dict_keys (store_with_user (load_user_progress file) u) ! q \<noteq> u) \<and>
           fst (translation_page s u t sub now file) = Some store' \<and>
           dict_keys store' = dict_keys (store_with_user (load_user_progress file) u) \<and>
           (\<forall>v. v \<noteq> u \<longrightarrow> dict_get store' v = dict_get (load_user_progress file) v) \<and>
           dict_get store' u = Some r' \<and>
           assigned r' = Some (py_range (int p * 100) (min (int p * 100 + 100) (int (length s))))"
proof -
  let ?L = "load_user_progress file"
  let ?ap1 = "store_with_user ?L u"
  let ?ud = "case dict_get ?L u of None \<Rightarrow> new_record | Some r \<Rightarrow> r"
  have ud: "dict_get ?ap1 u = Some ?ud" by (simp add: dict_get_store_with_user)
  obtain p where p: "list_index (dict_keys ?ap1) u = Inr p" "p < length ?ap1"
      "dict_keys ?ap1 ! p = u" "\<forall>q<p. dict_keys ?ap1 ! q \<noteq> u"
    and asg: "translation_page_assign s ?ap1 u ?ud file =
             (if get_assigned ?ud = [] then
                Inr (dict_set ?ap1 u (?ud\<lparr>assigned := Some (py_range (int p * 100)
                                        (min (int p * 100 + 100) (int (length s))))\<rparr>),
                     ?ud\<lparr>assigned := Some (py_range (int p * 100)
                                        (min (int p * 100 + 100) (int (length s))))\<rparr>,
                     Some (dict_set ?ap1 u (?ud\<lparr>assigned := Some (py_range (int p * 100)
                                        (min (int p * 100 + 100) (int (length s))))\<rparr>)))
              else Inr (?ap1, ?ud, file))"
    using translation_page_assign_cases [OF ud, of s "file"] by (elim exE conjE)
  let ?R = "py_range (int p * 100) (min (int p * 100 + 100) (int (length s)))"
  let ?ud2 = "?ud\<lparr>assigned := Some ?R\<rparr>"
  let ?ap2 = "dict_set ?ap1 u ?ud2"
  have asg': "translation_page_assign s ?ap1 u ?ud file = Inr (?ap2, ?ud2, Some ?ap2)"
    using asg empty by simp
  have run: "translation_page s u t sub now file
               = translation_page_render s ?ap2 u ?ud2 t sub now (Some ?ap2)"
    by (rule translation_page_unfold [OF ud asg'])
  have keys2: "dict_keys ?ap2 = dict_keys ?ap1"
    using ud by (simp add: dict_keys_set)
  have frame1: "\<And>v. v \<noteq> u \<Longrightarrow> dict_get ?ap1 v = dict_get ?L v"
    by (simp add: dict_get_store_with_user)
  have lenk: "p < length (dict_keys ?ap1)" using p(2) by (simp add: dict_keys_def)
  from translation_page_render_file [of s ?ap2 u ?ud2 t sub now "Some ?ap2"]
  show ?thesis
  proof
    assume "fst (translation_page_render s ?ap2 u ?ud2 t sub now (Some ?ap2)) = Some ?ap2"
    then have f: "fst (translation_page s u t sub now file) = Some ?ap2" by (simp add: run)
    have g: "dict_get ?ap2 u = Some ?ud2" by (simp add: dict_get_set)
    have fr: "\<forall>v. v \<noteq> u \<longrightarrow> dict_get ?ap2 v = dict_get ?L v"
      by (simp add: dict_get_set frame1)
    have a: "assigned ?ud2 = Some ?R" by simp
    show ?thesis
      by (intro exI [of _ p] exI [of _ ?ap2] exI [of _ ?ud2] conjI p(1) lenk p(3) p(4) f keys2 fr g a)
  next
    assume "\<exists>as idx sentence.
      assigned ?ud2 = Some as \<and> as \<noteq> [] \<and> get_index ?ud2 < int (length as) \<and>
      py_getitem as (get_index ?ud2) = Inr idx \<and> py_getitem s idx = Inr sentence \<and>
      sub \<and> strip t \<noteq> [] \<and>
      translation_page_render s ?ap2 u ?ud2 t sub now (Some ?ap2) =
        (Some (dict_set ?ap2 u
           (?ud2\<lparr>translations' := Some (dict_set (get_translations ?ud2) (py_str idx)
                    \<lparr>English = sentence, Translation = strip t, Timestamp = now\<rparr>),
                index := Some (get_index ?ud2 + 1)\<rparr>)),
         Inr Submitted)"
    then obtain X i where
      r: "translation_page_render s ?ap2 u ?ud2 t sub now (Some ?ap2) =
            (Some (dict_set ?ap2 u (?ud2\<lparr>translations' := X, index := i\<rparr>)), Inr Submitted)"
      by (elim exE conjE) (rule that)
    let ?ud3 = "?ud2\<lparr>translations' := X, index := i\<rparr>"
    let ?ap3 = "dict_set ?ap2 u ?ud3"
    have f: "fst (translation_page s u t sub now file) = Some ?ap3" by (simp add: run r)
    have k: "dict_keys ?ap3 = dict_keys ?ap1"
      using keys2 by (simp add: dict_keys_set dict_get_set)
    have g: "dict_get ?ap3 u = Some ?ud3" by (simp add: dict_get_set)
    have fr: "\<forall>v. v \<noteq> u \<longrightarrow> dict_get ?ap3 v = dict_get ?L v"
      by (simp add: dict_get_set frame1)
    have a: "assigned ?ud3 = Some ?R" by simp
    show ?thesis
      by (intro exI [of _ p] exI [of _ ?ap3] exI [of _ ?ud3] conjI p(1) lenk p(3) p(4) f k fr g a)
  qed
qed

subsection \<open>The assignment\<close>

text \<open>
  C1.  A user who opens the Translate view with no record, or with a record whose
  \<^verbatim>\<open>assigned\<close> list is empty, is in the store that the run writes, at the position
  \<open>p\<close> of the key order (the first and only place of the username; the end of the store
  for a new user), and the stored \<^verbatim>\<open>assigned\<close> list is the contiguous range from
  \<open>100 * p\<close> up to, not including, \<open>min (100 * p + 100) (length sentences)\<close>: it has
  \<open>min 100 (length sentences - 100 * p)\<close> indices when \<open>100 * p\<close> is below the sentence
  count and is empty otherwise.  This holds whatever the run ends with, since the
  assignment is saved before the rest of the view is rendered.
\<close>

theorem translation_page_assignment:
  assumes "\<forall>r. dict_get (load_user_progress file) username = Some r \<longrightarrow> get_assigned r = []"
  shows "\<exists>p store' r'.
           fst (translation_page sentences username translation submit now file) = Some store' \<and>
           dict_keys store' =
             (if dict_get (load_user_progress file) username = None
              then dict_keys (load_user_progress file) @ [username]
              else dict_keys (load_user_progress file)) \<and>
           p < length (dict_keys store') \<and> dict_keys store' ! p = username \<and>
           (\<forall>q<p. dict_keys store' ! q \<noteq> username) \<and>
           (dict_get (load_user_progress file) username = None
              \<longrightarrow> p = length (load_user_progress file)) \<and>
           dict_get store' username = Some r' \<and>
           assigned r' = Some (map int [100 * p ..< min (100 * p + 100) (length sentences)]) \<and>
           (100 * p < length sentences
              \<longrightarrow> length (get_assigned r') = min 100 (length sentences - 100 * p)) \<and>
           (length sentences \<le> 100 * p \<longrightarrow> get_assigned r' = [])"
proof -
  let ?L = "load_user_progress file"
  let ?K = "dict_keys (store_with_user ?L username)"
  have empty: "get_assigned (case dict_get ?L username of None \<Rightarrow> new_record | Some r \<Rightarrow> r) = []"
    using assms by (simp add: get_assigned_new_record split: option.splits)
  obtain p store' r' where
    idx: "list_index ?K username = Inr p" and
    lt: "p < length ?K" and at: "?K ! p = username" and
    first: "\<forall>q<p. ?K ! q \<noteq> username" and
    f: "fst (translation_page sentences username translation submit now file) = Some store'" and
    keys: "dict_keys store' = ?K" and
    r': "dict_get store' username = Some r'" and
    asg: "assigned r' = Some (py_range (int p * 100)
            (min (int p * 100 + 100) (int (length sentences))))"
    using translation_page_first_visit [OF empty, of sentences translation submit now]
    by (elim exE conjE)
  have K: "?K = (if dict_get ?L username = None then dict_keys ?L @ [username] else dict_keys ?L)"
    by (rule dict_keys_store_with_user)
  have new: "dict_get ?L username = None \<longrightarrow> p = length ?L"
  proof
    assume n: "dict_get ?L username = None"
    then have "username \<notin> set (dict_keys ?L)" by (simp add: dict_get_None_keys)
    then have "list_index (dict_keys ?L @ [username]) username = Inr (length (dict_keys ?L))"
      by (rule list_index_append_new)
    with idx n K show "p = length ?L" by (simp add: dict_keys_def)
  qed
  have asg': "assigned r' = Some (map int [100 * p ..< min (100 * p + 100) (length sentences)])"
    using asg by (simp only: assigned_range_nat)
  then have ga: "get_assigned r' = map int [100 * p ..< min (100 * p + 100) (length sentences)]"
    by (simp add: get_assigned_def)
  have len: "100 * p < length sentences
               \<longrightarrow> length (get_assigned r') = min 100 (length sentences - 100 * p)"
    by (simp add: ga) arith
  have none: "length sentences \<le> 100 * p \<longrightarrow> get_assigned r' = []"
    by (simp add: ga)
  have keys': "dict_keys store' =
             (if dict_get ?L username = None then dict_keys ?L @ [username] else dict_keys ?L)"
    using keys K by simp
  have lt': "p < length (dict_keys store')" using lt keys by simp
  have at': "dict_keys store' ! p = username" using at keys by simp
  have first': "\<forall>q<p. dict_keys store' ! q \<noteq> username" using first keys by simp
  show ?thesis
    by (intro exI [of _ p] exI [of _ store'] exI [of _ r'] conjI f keys' lt' at' first' new r'
          asg' len none)
qed

theorem translation_page_assignment_witness:
  "\<exists>store' r'.
     fst (translation_page (replicate 250 ''s'') ''chi'' [] False []
            (Some [(''ade'', \<lparr>translations' = Some [], metadata = Some [],
                              assigned = Some [0, 1], index = Some 0\<rparr>),
                   (''bola'', \<lparr>translations' = Some [], metadata = Some [],
                               assigned = Some [100], index = Some 0\<rparr>)])) = Some store' \<and>
     dict_keys store' = [''ade'', ''bola'', ''chi''] \<and>
     dict_get store' ''chi'' = Some r' \<and>
     assigned r' = Some (map int [200 ..< 250]) \<and> length (get_assigned r') = 50"
proof -
  let ?file = "Some [(''ade'', \<lparr>translations' = Some [], metadata = Some [],
                              assigned = Some [0, 1], index = Some 0\<rparr>),
                   (''bola'', \<lparr>translations' = Some [], metadata = Some [],
                               assigned = Some [100], index = Some 0\<rparr>)]"
  have none: "dict_get (load_user_progress ?file) ''chi'' = None"
    by (simp add: load_user_progress_def)
  have keys0: "dict_keys (load_user_progress ?file) = [''ade'', ''bola'']"
    by (simp add: load_user_progress_def dict_keys_def)
  have len0: "length (load_user_progress ?file) = 2"
    by (simp add: load_user_progress_def)
  have hyp: "\<forall>r. dict_get (load_user_progress ?file) ''chi'' = Some r \<longrightarrow> get_assigned r = []"
    by (simp add: none)
  obtain p store' r' where
    f: "fst (translation_page (replicate 250 ''s'') ''chi'' [] False [] ?file) = Some store'" and
    keys: "dict_keys store' =
             (if dict_get (load_user_progress ?file) ''chi'' = None
              then dict_keys (load_user_progress ?file) @ [''chi'']
              else dict_keys (load_user_progress ?file))" and
    new: "dict_get (load_user_progress ?file) ''chi'' = None
              \<longrightarrow> p = length (load_user_progress ?file)" and
    r': "dict_get store' ''chi'' = Some r'" and
    asg: "assigned r' = Some (map int [100 * p ..<
            min (100 * p + 100) (length (replicate 250 ''s''))])" and
    len: "100 * p < length (replicate 250 ''s'')
              \<longrightarrow> length (get_assigned r') = min 100 (length (replicate 250 ''s'') - 100 * p)"
    using translation_page_assignment [OF hyp, of "replicate 250 ''s''" "[]" False "[]"]
    by (elim exE conjE)
  have p: "p = 2" using new none len0 by simp
  have k: "dict_keys store' = [''ade'', ''bola'', ''chi'']"
    using keys none keys0 by simp
  have a: "assigned r' = Some (map int [200 ..< 250])"
    using asg unfolding p by (simp del: upt_rec_numeral)
  have l: "length (get_assigned r') = 50" using len unfolding p by simp
  show ?thesis
    by (intro exI [of _ store'] exI [of _ r'] conjI f k r' a l)
qed

subsection \<open>Submissions\<close>

lemma store_with_user_present: "dict_get d u = Some r \<Longrightarrow> store_with_user d u = d"
  by (simp add: store_with_user_def dict_contains_def)

lemma translation_page_assigned:
  assumes rec: "dict_get (load_user_progress file) u = Some r"
      and ne: "get_assigned r \<noteq> []"
  shows "translation_page s u t sub now file
           = translation_page_render s (load_user_progress file) u r t sub now file"
proof -
  let ?L = "load_user_progress file"
  have sw: "store_with_user ?L u = ?L" by (rule store_with_user_present [OF rec])
  have ud: "dict_get (store_with_user ?L u) u = Some r" using rec sw by simp
  obtain p where "translation_page_assign s ?L u r file =
             (if get_assigned r = [] then
                Inr (dict_set ?L u (r\<lparr>assigned := Some (py_range (int p * 100)
                                        (min (int p * 100 + 100) (int (length s))))\<rparr>),
                     r\<lparr>assigned := Some (py_range (int p * 100)
                                        (min (int p * 100 + 100) (int (length s))))\<rparr>,
                     Some (dict_set ?L u (r\<lparr>assigned := Some (py_range (int p * 100)
                                        (min (int p * 100 + 100) (int (length s))))\<rparr>)))
              else Inr (?L, r, file))"
    using translation_page_assign_cases [OF rec, of s "file"] by (elim exE conjE)
  then have asg: "translation_page_assign s (store_with_user ?L u) u r file = Inr (?L, r, file)"
    using ne sw by simp
  show ?thesis by (rule translation_page_unfold [OF ud asg])
qed

lemma py_getitem_nonempty: "py_getitem xs i = Inr x \<Longrightarrow> xs \<noteq> []"
  by (auto simp: py_getitem_def split: if_splits)

lemma py_str_0: "py_str 0 = ''0''"
  by (simp add: py_str_def digit_char_def)

lemma strip_ex1: "strip '' e kaaro '' = ''e kaaro''"
  by (simp add: strip_def is_space_def)

lemma strip_ex2: "strip ''  '' = []"
  by (simp add: strip_def is_space_def)

lemma strip_ex3: "strip '' hi'' = ''hi''"
  by (simp add: strip_def is_space_def)

text \<open>
  C8.  The user has a record with a current sentence (the cursor is below the length of
  \<^verbatim>\<open>assigned\<close>, and the sentence is displayed), and submits a text that is empty
  after stripping whitespace: the run shows the warning and leaves the progress file as it
  was, so the user's \<^verbatim>\<open>translations\<close>, the cursor and everything else persisted are
  unchanged.
\<close>

theorem translation_page_blank_submission:
  assumes rec: "dict_get (load_user_progress file) username = Some r"
      and asg: "assigned r = Some as"
      and cur: "get_index r < int (length as)"
      and idx: "py_getitem as (get_index r) = Inr idx"
      and sen: "py_getitem sentences idx = Inr sentence"
      and blank: "strip translation = []"
  shows "translation_page sentences username translation True now file = (file, Inr Warning)"
proof -
  have ne: "as \<noteq> []" by (rule py_getitem_nonempty [OF idx])
  then have "get_assigned r \<noteq> []" using asg by (simp add: get_assigned_def)
  then have "translation_page sentences username translation True now file
      = translation_page_render sentences (load_user_progress file) username r translation True
          now file"
    by (rule translation_page_assigned [OF rec])
  also have "\<dots> = (file, Inr Warning)"
    using asg ne cur idx sen blank by (simp add: translation_page_render_cases)
  finally show ?thesis .
qed

theorem translation_page_blank_submission_witness:
  "translation_page [''good morning'', ''thank you''] ''ade'' ''  '' True ''t1''
     (Some [(''ade'', \<lparr>translations' = Some [], metadata = Some [],
                       assigned = Some [0, 1], index = Some 0\<rparr>)])
   = (Some [(''ade'', \<lparr>translations' = Some [], metadata = Some [],
                        assigned = Some [0, 1], index = Some 0\<rparr>)], Inr Warning)"
proof (rule translation_page_blank_submission)
  show "dict_get (load_user_progress (Some [(''ade'', \<lparr>translations' = Some [],
          metadata = Some [], assigned = Some [0, 1], index = Some 0\<rparr>)])) ''ade''
        = Some \<lparr>translations' = Some [], metadata = Some [],
                assigned = Some [0, 1], index = Some 0\<rparr>"
    by (simp add: load_user_progress_def fill_defaults_def)
  show "assigned \<lparr>translations' = Some [], metadata = Some [],
                  assigned = Some [0, 1], index = Some 0\<rparr> = Some [0, 1]" by simp
  show "get_index \<lparr>translations' = Some [], metadata = Some [],
                   assigned = Some [0, 1], index = Some 0\<rparr> < int (length [0, 1 :: int])"
    by (simp add: get_index_def)
  show "py_getitem [0, 1] (get_index \<lparr>translations' = Some [], metadata = Some [],
                   assigned = Some [0, 1], index = Some 0\<rparr>) = Inr 0"
    by (simp add: get_index_def py_getitem_def)
  show "py_getitem [''good morning'', ''thank you''] 0 = Inr ''good morning''"
    by (simp add: py_getitem_def)
  show "strip ''  '' = []" by (rule strip_ex2)
qed

text \<open>
  C3, as amended.  The user has a record with a current sentence \<open>idx\<close> (the cursor is
  below the length of \<^verbatim>\<open>assigned\<close>), and submits a text that is not empty after
  stripping whitespace: the run saves a store in which the user's entry for \<open>str idx\<close>
  holds the sentence, the stripped text and the timestamp, the cursor is one higher, and
  \<^verbatim>\<open>assigned\<close> and \<^verbatim>\<open>metadata\<close> are as before.  The keys of
  \<^verbatim>\<open>translations\<close> are the old keys, with \<open>str idx\<close> added at the end only when
  it was not among them (an existing entry is overwritten, not duplicated); every other
  entry and every other user's record is as loaded.
\<close>

theorem translation_page_submission:
  assumes rec: "dict_get (load_user_progress file) username = Some r"
      and asg: "assigned r = Some as"
      and cur: "get_index r < int (length as)"
      and idx: "py_getitem as (get_index r) = Inr idx"
      and sen: "py_getitem sentences idx = Inr sentence"
      and nonblank: "strip translation \<noteq> []"
  shows "\<exists>store' r'.
           translation_page sentences username translation True now file
             = (Some store', Inr Submitted) \<and>
           dict_keys store' = dict_keys (load_user_progress file) \<and>
           (\<forall>v. v \<noteq> username \<longrightarrow> dict_get store' v = dict_get (load_user_progress file) v) \<and>
           dict_get store' username = Some r' \<and>
           dict_get (get_translations r') (py_str idx)
             = Some \<lparr>English = sentence, Translation = strip translation, Timestamp = now\<rparr> \<and>
           get_index r' = get_index r + 1 \<and>
           assigned r' = assigned r \<and> metadata r' = metadata r \<and>
           dict_keys (get_translations r') =
             (if dict_get (get_translations r) (py_str idx) = None
              then dict_keys (get_translations r) @ [py_str idx]
              else dict_keys (get_translations r)) \<and>
           (\<forall>k. k \<noteq> py_str idx
              \<longrightarrow> dict_get (get_translations r') k = dict_get (get_translations r) k)"
proof -
  let ?L = "load_user_progress file"
  let ?e = "\<lparr>English = sentence, Translation = strip translation, Timestamp = now\<rparr>"
  let ?r' = "r\<lparr>translations' := Some (dict_set (get_translations r) (py_str idx) ?e),
               index := Some (get_index r + 1)\<rparr>"
  have ne: "as \<noteq> []" by (rule py_getitem_nonempty [OF idx])
  then have "get_assigned r \<noteq> []" using asg by (simp add: get_assigned_def)
  then have "translation_page sentences username translation True now file
      = translation_page_render sentences ?L username r translation True now file"
    by (rule translation_page_assigned [OF rec])
  also have "\<dots> = (Some (dict_set ?L username ?r'), Inr Submitted)"
    using asg ne cur idx sen nonblank by (simp add: translation_page_render_cases)
  finally have run: "translation_page sentences username translation True now file
      = (Some (dict_set ?L username ?r'), Inr Submitted)" .
  have keys: "dict_keys (dict_set ?L username ?r') = dict_keys ?L"
    using rec by (simp add: dict_keys_set)
  have frame: "\<forall>v. v \<noteq> username \<longrightarrow> dict_get (dict_set ?L username ?r') v = dict_get ?L v"
    by (simp add: dict_get_set)
  have get: "dict_get (dict_set ?L username ?r') username = Some ?r'"
    by (simp add: dict_get_set)
  have tr: "get_translations ?r' = dict_set (get_translations r) (py_str idx) ?e"
    by (simp add: get_translations_def)
  have e: "dict_get (get_translations ?r') (py_str idx) = Some ?e"
    by (simp add: tr dict_get_set)
  have i: "get_index ?r' = get_index r + 1" by (simp add: get_index_def)
  have a: "assigned ?r' = assigned r" by simp
  have m: "metadata ?r' = metadata r" by simp
  have k: "dict_keys (get_translations ?r') =
             (if dict_get (get_translations r) (py_str idx) = None
              then dict_keys (get_translations r) @ [py_str idx]
              else dict_keys (get_translations r))"
    by (simp add: tr dict_keys_set)
  have o: "\<forall>k. k \<noteq> py_str idx
              \<longrightarrow> dict_get (get_translations ?r') k = dict_get (get_translations r) k"
    by (simp add: tr dict_get_set)
  show ?thesis
    by (intro exI [of _ "dict_set ?L username ?r'"] exI [of _ ?r'] conjI run keys frame get e i a m k o)
qed

theorem translation_page_submission_witness:
  "\<exists>store' r'.
     translation_page [''good morning'', ''thank you''] ''ade'' '' e kaaro '' True ''t1''
       (Some [(''ade'', \<lparr>translations' = Some [(''0'', \<lparr>English = ''good morning'',
                             Translation = ''e karo'', Timestamp = ''t0''\<rparr>)],
                         metadata = Some [], assigned = Some [0, 1], index = Some 0\<rparr>)])
       = (Some store', Inr Submitted) \<and>
     dict_get store' ''ade'' = Some r' \<and>
     get_translations r' = [(''0'', \<lparr>English = ''good morning'', Translation = ''e kaaro'',
                                   Timestamp = ''t1''\<rparr>)] \<and>
     get_index r' = 1"
proof -
  let ?r = "\<lparr>translations' = Some [(''0'', \<lparr>English = ''good morning'',
                             Translation = ''e karo'', Timestamp = ''t0''\<rparr>)],
             metadata = Some [], assigned = Some [0, 1], index = Some 0\<rparr>"
  let ?file = "Some [(''ade'', ?r)]"
  have h1: "dict_get (load_user_progress ?file) ''ade'' = Some ?r"
    by (simp add: load_user_progress_def fill_defaults_def)
  have h2: "assigned ?r = Some [0, 1]" by simp
  have h3: "get_index ?r < int (length [0, 1 :: int])" by (simp add: get_index_def)
  have h4: "py_getitem [0, 1] (get_index ?r) = Inr 0" by (simp add: get_index_def py_getitem_def)
  have h5: "py_getitem [''good morning'', ''thank you''] 0 = Inr ''good morning''"
    by (simp add: py_getitem_def)
  have h6: "strip '' e kaaro '' \<noteq> []" by (simp add: strip_ex1)
  obtain store' r' where
    run: "translation_page [''good morning'', ''thank you''] ''ade'' '' e kaaro '' True ''t1''
            ?file = (Some store', Inr Submitted)" and
    get: "dict_get store' ''ade'' = Some r'" and
    e: "dict_get (get_translations r') (py_str 0)
          = Some \<lparr>English = ''good morning'', Translation = strip '' e kaaro '',
                  Timestamp = ''t1''\<rparr>" and
    i: "get_index r' = get_index ?r + 1" and
    k: "dict_keys (get_translations r') =
             (if dict_get (get_translations ?r) (py_str 0) = None
              then dict_keys (get_translations ?r) @ [py_str 0]
              else dict_keys (get_translations ?r))"
    using translation_page_submission [OF h1 h2 h3 h4 h5 h6, of "''t1''"]
    by (elim exE conjE)
  have k': "dict_keys (get_translations r') = [''0'']"
    using k by (simp add: py_str_0 get_translations_def dict_keys_def)
  then obtain v where v: "get_translations r' = [(''0'', v)]"
    by (cases "get_translations r'") (auto simp: dict_keys_def)
  have tr: "get_translations r' = [(''0'', \<lparr>English = ''good morning'',
              Translation = ''e kaaro'', Timestamp = ''t1''\<rparr>)]"
    using e v by (simp add: py_str_0 strip_ex1)
  have i': "get_index r' = 1" using i by (simp add: get_index_def)
  show ?thesis by (intro exI [of _ store'] exI [of _ r'] conjI run get tr i')
qed

text \<open>
  The claim C3 as first stated ("a non-empty text is stored as submitted") fails on two
  inputs: the text of two spaces is not empty, yet it is refused with the warning and the
  file is unchanged; and the text \<open>'' hi''\<close> is stored as \<open>''hi''\<close>.
\<close>

theorem translation_page_submission_counterexample:
  "''  '' \<noteq> [] \<and>
   translation_page [''good morning'', ''thank you''] ''ade'' ''  '' True ''t1''
     (Some [(''ade'', \<lparr>translations' = Some [], metadata = Some [],
                       assigned = Some [0, 1], index = Some 0\<rparr>)])
   = (Some [(''ade'', \<lparr>translations' = Some [], metadata = Some [],
                        assigned = Some [0, 1], index = Some 0\<rparr>)], Inr Warning) \<and>
   '' hi'' \<noteq> ''hi'' \<and>
   translation_page [''good morning'', ''thank you''] ''ade'' '' hi'' True ''t1''
     (Some [(''ade'', \<lparr>translations' = Some [], metadata = Some [],
                       assigned = Some [0, 1], index = Some 0\<rparr>)])
   = (Some [(''ade'', \<lparr>translations' = Some [(''0'', \<lparr>English = ''good morning'',
                           Translation = ''hi'', Timestamp = ''t1''\<rparr>)],
                        metadata = Some [], assigned = Some [0, 1], index = Some 1\<rparr>)],
      Inr Submitted)"
  by (simp add: translation_page_def store_with_user_def load_user_progress_def
        fill_defaults_def dict_contains_def dict_item_def translation_page_assign_def
        translation_page_render_def save_user_progress_def py_truediv_def py_getitem_def
        get_translations_def get_index_def Let_def py_str_0 strip_ex2 strip_ex3)

section \<open>The Metadata view\<close>

lemma metadata_page_saved:
  assumes "metadata_page username name sex age gmail country save file
             = (file', Inr MetadataSaved)"
  shows "file' = Some (dict_set (load_user_progress file) username
           ((case dict_get (load_user_progress file) username of
               None \<Rightarrow> empty_record | Some d \<Rightarrow> d)
            \<lparr>metadata := Some [(''name'', MStr name), (''sex'', MStr sex), (''age'', MInt age),
                                (''gmail'', MStr gmail), (''country'', MStr country)]\<rparr>))"
  using assms
  by (simp add: metadata_page_def save_user_progress_def Let_def
           split: sum.splits if_splits)

lemma metadata_page_file:
  "fst (metadata_page username name sex age gmail country save file) = file \<or>
   metadata_page username name sex age gmail country save file
     = (Some (dict_set (load_user_progress file) username
           ((case dict_get (load_user_progress file) username of
               None \<Rightarrow> empty_record | Some d \<Rightarrow> d)
            \<lparr>metadata := Some [(''name'', MStr name), (''sex'', MStr sex), (''age'', MInt age),
                                (''gmail'', MStr gmail), (''country'', MStr country)]\<rparr>)),
        Inr MetadataSaved)"
  by (simp add: metadata_page_def save_user_progress_def Let_def split: sum.splits)

text \<open>
  C10, as amended.  A run of the Metadata view that saves writes a store with the loaded
  users in their order (the user added at the end when new).  In the user's own record
  only \<^verbatim>\<open>metadata\<close> is replaced, by the five values of the form; its
  \<^verbatim>\<open>translations\<close>, \<^verbatim>\<open>assigned\<close> and \<^verbatim>\<open>index\<close> are those of the loaded
  record (absent for a new user).  Every other user's record is written back as loaded:
  the record of the file with each missing field filled with its default, and each present
  field unchanged.
\<close>

theorem metadata_page_save_frame:
  assumes "metadata_page username name sex age gmail country save file
             = (file', Inr MetadataSaved)"
  shows "\<exists>store' r'.
           file' = Some store' \<and>
           dict_keys store' =
             (if dict_get (load_user_progress file) username = None
              then dict_keys (load_user_progress file) @ [username]
              else dict_keys (load_user_progress file)) \<and>
           (\<forall>v. v \<noteq> username \<longrightarrow> dict_get store' v = dict_get (load_user_progress file) v) \<and>
           (\<forall>data v r. file = Some data \<longrightarrow> v \<noteq> username \<longrightarrow> dict_get data v = Some r
              \<longrightarrow> dict_get store' v = Some (fill_defaults r)) \<and>
           dict_get store' username = Some r' \<and>
           metadata r' = Some [(''name'', MStr name), (''sex'', MStr sex), (''age'', MInt age),
                               (''gmail'', MStr gmail), (''country'', MStr country)] \<and>
           (case dict_get (load_user_progress file) username of
              None \<Rightarrow> translations' r' = None \<and> assigned r' = None \<and> index r' = None
            | Some r \<Rightarrow> translations' r' = translations' r \<and> assigned r' = assigned r \<and>
                        index r' = index r) \<and>
           (\<forall>data r. file = Some data \<longrightarrow> dict_get data username = Some r
              \<longrightarrow> translations' r' = translations' (fill_defaults r) \<and>
                  assigned r' = assigned (fill_defaults r) \<and>
                  index r' = index (fill_defaults r))"
proof -
  let ?L = "load_user_progress file"
  let ?M = "Some [(''name'', MStr name), (''sex'', MStr sex), (''age'', MInt age),
                  (''gmail'', MStr gmail), (''country'', MStr country)]"
  let ?ud = "case dict_get ?L username of None \<Rightarrow> empty_record | Some d \<Rightarrow> d"
  let ?r' = "?ud\<lparr>metadata := ?M\<rparr>"
  let ?S = "dict_set ?L username ?r'"
  have f: "file' = Some ?S" by (rule metadata_page_saved [OF assms])
  have keys: "dict_keys ?S = (if dict_get ?L username = None
                              then dict_keys ?L @ [username] else dict_keys ?L)"
    by (rule dict_keys_set)
  have frame: "\<forall>v. v \<noteq> username \<longrightarrow> dict_get ?S v = dict_get ?L v"
    by (simp add: dict_get_set)
  have raw: "\<forall>data v r. file = Some data \<longrightarrow> v \<noteq> username \<longrightarrow> dict_get data v = Some r
              \<longrightarrow> dict_get ?S v = Some (fill_defaults r)"
    by (simp add: dict_get_set dict_get_load)
  have get: "dict_get ?S username = Some ?r'" by (simp add: dict_get_set)
  have m: "metadata ?r' = ?M" by simp
  have own: "case dict_get ?L username of
              None \<Rightarrow> translations' ?r' = None \<and> assigned ?r' = None \<and> index ?r' = None
            | Some r \<Rightarrow> translations' ?r' = translations' r \<and> assigned ?r' = assigned r \<and>
                        index ?r' = index r"
    by (simp add: empty_record_def split: option.splits)
  have ownraw: "\<forall>data r. file = Some data \<longrightarrow> dict_get data username = Some r
              \<longrightarrow> translations' ?r' = translations' (fill_defaults r) \<and>
                  assigned ?r' = assigned (fill_defaults r) \<and>
                  index ?r' = index (fill_defaults r)"
    by (simp add: dict_get_load)
  show ?thesis
    by (intro exI [of _ ?S] exI [of _ ?r'] conjI f keys frame raw get m own ownraw)
qed

theorem metadata_page_save_frame_witness:
  "\<exists>store' r'.
     metadata_page ''bola'' ''Bola'' ''Female'' 25 ''bola@gmail.com'' ''Nigeria'' True
       (Some [(''ade'', \<lparr>translations' = Some [], metadata = Some [], assigned = Some [0, 1],
                         index = Some 1\<rparr>),
              (''bola'', \<lparr>translations' = Some [], metadata = Some [], assigned = Some [100],
                          index = Some 0\<rparr>)])
       = (Some store', Inr MetadataSaved) \<and>
     dict_keys store' = [''ade'', ''bola''] \<and>
     dict_get store' ''ade'' = Some \<lparr>translations' = Some [], metadata = Some [],
                                     assigned = Some [0, 1], index = Some 1\<rparr> \<and>
     dict_get store' ''bola'' = Some r' \<and>
     assigned r' = Some [100] \<and> index r' = Some 0 \<and> translations' r' = Some []"
proof -
  let ?a = "\<lparr>translations' = Some [], metadata = Some [], assigned = Some [0, 1],
             index = Some 1\<rparr>"
  let ?b = "\<lparr>translations' = Some [], metadata = Some [], assigned = Some [100],
             index = Some 0\<rparr>"
  let ?file = "Some [(''ade'', ?a), (''bola'', ?b)]"
  have L: "load_user_progress ?file = [(''ade'', ?a), (''bola'', ?b)]"
    by (simp add: load_user_progress_def fill_defaults_def)
  have run: "metadata_page ''bola'' ''Bola'' ''Female'' 25 ''bola@gmail.com'' ''Nigeria'' True ?file
     = (fst (metadata_page ''bola'' ''Bola'' ''Female'' 25 ''bola@gmail.com'' ''Nigeria'' True
               ?file), Inr MetadataSaved)"
    by (simp add: metadata_page_def L get_metadata_def save_user_progress_def Let_def)
  obtain store' r' where
    f: "fst (metadata_page ''bola'' ''Bola'' ''Female'' 25 ''bola@gmail.com'' ''Nigeria'' True
               ?file) = Some store'" and
    keys: "dict_keys store' =
             (if dict_get (load_user_progress ?file) ''bola'' = None
              then dict_keys (load_user_progress ?file) @ [''bola'']
              else dict_keys (load_user_progress ?file))" and
    frame: "\<forall>v. v \<noteq> ''bola'' \<longrightarrow> dict_get store' v = dict_get (load_user_progress ?file) v" and
    get: "dict_get store' ''bola'' = Some r'" and
    own: "case dict_get (load_user_progress ?file) ''bola'' of
              None \<Rightarrow> translations' r' = None \<and> assigned r' = None \<and> index r' = None
            | Some r \<Rightarrow> translations' r' = translations' r \<and> assigned r' = assigned r \<and>
                        index r' = index r"
    using metadata_page_save_frame [OF run] by (elim exE conjE)
  have r: "metadata_page ''bola'' ''Bola'' ''Female'' 25 ''bola@gmail.com'' ''Nigeria'' True ?file
             = (Some store', Inr MetadataSaved)"
    using run f by simp
  have k: "dict_keys store' = [''ade'', ''bola'']" using keys by (simp add: L dict_keys_def)
  have a: "dict_get store' ''ade'' = Some ?a" using frame by (simp add: L)
  have o: "assigned r' = Some [100] \<and> index r' = Some 0 \<and> translations' r' = Some []"
    using own by (simp add: L)
  show ?thesis
    using r k a get o by (intro exI [of _ store'] exI [of _ r']) simp
qed

text \<open>
  The claim C10 as first stated ("every other user's entire record is unchanged") fails
  when another user's record lacks a field.  \<open>ade\<close> saves metadata first, which writes a
  record with the key \<^verbatim>\<open>metadata\<close> only; when \<open>bola\<close> then saves metadata, the file
  written back holds \<open>ade\<close>'s record with \<^verbatim>\<open>translations\<close>, \<^verbatim>\<open>assigned\<close> and
  \<^verbatim>\<open>index\<close> added.
\<close>

theorem metadata_page_save_frame_counterexample:
  "metadata_page ''ade'' ''Ade'' ''Male'' 30 ''ade@gmail.com'' ''Nigeria'' True None
     = (Some [(''ade'', \<lparr>translations' = None,
                         metadata = Some [(''name'', MStr ''Ade''), (''sex'', MStr ''Male''),
                                          (''age'', MInt 30), (''gmail'', MStr ''ade@gmail.com''),
                                          (''country'', MStr ''Nigeria'')],
                         assigned = None, index = None\<rparr>)], Inr MetadataSaved) \<and>
   metadata_page ''bola'' ''Bola'' ''Female'' 25 ''bola@gmail.com'' ''Nigeria'' True
     (Some [(''ade'', \<lparr>translations' = None,
                       metadata = Some [(''name'', MStr ''Ade''), (''sex'', MStr ''Male''),
                                        (''age'', MInt 30), (''gmail'', MStr ''ade@gmail.com''),
                                        (''country'', MStr ''Nigeria'')],
                       assigned = None, index = None\<rparr>)])
     = (Some [(''ade'', \<lparr>translations' = Some [],
                         metadata = Some [(''name'', MStr ''Ade''), (''sex'', MStr ''Male''),
                                          (''age'', MInt 30), (''gmail'', MStr ''ade@gmail.com''),
                                          (''country'', MStr ''Nigeria'')],
                         assigned = Some [], index = Some 0\<rparr>),
              (''bola'', \<lparr>translations' = None,
                          metadata = Some [(''name'', MStr ''Bola''), (''sex'', MStr ''Female''),
                                           (''age'', MInt 25), (''gmail'', MStr ''bola@gmail.com''),
                                           (''country'', MStr ''Nigeria'')],
                          assigned = None, index = None\<rparr>)], Inr MetadataSaved)"
  by (simp add: metadata_page_def load_user_progress_def fill_defaults_def empty_record_def
        get_metadata_def save_user_progress_def Let_def)

section \<open>Invariants of the reachable progress files\<close>

lemma translation_page_lookup:
  "fst (translation_page s u t sub now file) = file \<or>
   (\<exists>store' r' ud2.
      fst (translation_page s u t sub now file) = Some store' \<and>
      (\<forall>v. v \<noteq> u \<longrightarrow> dict_get store' v = dict_get (load_user_progress file) v) \<and>
      dict_get store' u = Some r' \<and>
      ((get_assigned (case dict_get (load_user_progress file) u of
                        None \<Rightarrow> new_record | Some r \<Rightarrow> r) \<noteq> [] \<and>
        ud2 = (case dict_get (load_user_progress file) u of
                 None \<Rightarrow> new_record | Some r \<Rightarrow> r)) \<or>
       (get_assigned (case dict_get (load_user_progress file) u of
                        None \<Rightarrow> new_record | Some r \<Rightarrow> r) = [] \<and>
        (\<exists>p. ud2 = (case dict_get (load_user_progress file) u of
                       None \<Rightarrow> new_record | Some r \<Rightarrow> r)
                    \<lparr>assigned := Some (py_range (int p * 100)
                        (min (int p * 100 + 100) (int (length s))))\<rparr>))) \<and>
      (r' = ud2 \<or>
       (\<exists>X. r' = ud2\<lparr>translations' := X, index := Some (get_index ud2 + 1)\<rparr> \<and>
            get_index ud2 < int (length (get_assigned ud2)))))"
proof -
  let ?L = "load_user_progress file"
  let ?ap1 = "store_with_user ?L u"
  let ?ud = "case dict_get ?L u of None \<Rightarrow> new_record | Some r \<Rightarrow> r"
  have ud: "dict_get ?ap1 u = Some ?ud" by (simp add: dict_get_store_with_user)
  have frame1: "\<And>v. v \<noteq> u \<Longrightarrow> dict_get ?ap1 v = dict_get ?L v"
    by (simp add: dict_get_store_with_user)
  obtain p where asg: "translation_page_assign s ?ap1 u ?ud file =
             (if get_assigned ?ud = [] then
                Inr (dict_set ?ap1 u (?ud\<lparr>assigned := Some (py_range (int p * 100)
                                        (min (int p * 100 + 100) (int (length s))))\<rparr>),
                     ?ud\<lparr>assigned := Some (py_range (int p * 100)
                                        (min (int p * 100 + 100) (int (length s))))\<rparr>,
                     Some (dict_set ?ap1 u (?ud\<lparr>assigned := Some (py_range (int p * 100)
                                        (min (int p * 100 + 100) (int (length s))))\<rparr>)))
              else Inr (?ap1, ?ud, file))"
    using translation_page_assign_cases [OF ud, of s "file"] by (elim exE conjE)
  let ?R = "py_range (int p * 100) (min (int p * 100 + 100) (int (length s)))"
  define ud2 where "ud2 = (if get_assigned ?ud = [] then ?ud\<lparr>assigned := Some ?R\<rparr> else ?ud)"
  define ap2 where "ap2 = (if get_assigned ?ud = [] then dict_set ?ap1 u ud2 else ?ap1)"
  define f2 where "f2 = (if get_assigned ?ud = [] then Some ap2 else file)"
  have asg': "translation_page_assign s ?ap1 u ?ud file = Inr (ap2, ud2, f2)"
    using asg by (simp add: ud2_def ap2_def f2_def)
  have run: "translation_page s u t sub now file = translation_page_render s ap2 u ud2 t sub now f2"
    by (rule translation_page_unfold [OF ud asg'])
  have get2: "dict_get ap2 u = Some ud2"
    using ud by (simp add: ap2_def ud2_def dict_get_set)
  have frame2: "\<forall>v. v \<noteq> u \<longrightarrow> dict_get ap2 v = dict_get ?L v"
    by (simp add: ap2_def dict_get_set frame1)
  have rel2: "(get_assigned ?ud \<noteq> [] \<and> ud2 = ?ud) \<or>
              (get_assigned ?ud = [] \<and> (\<exists>p. ud2 = ?ud\<lparr>assigned := Some (py_range (int p * 100)
                        (min (int p * 100 + 100) (int (length s))))\<rparr>))"
    by (cases "get_assigned ?ud = []") (auto simp: ud2_def)
  from translation_page_render_file [of s ap2 u ud2 t sub now f2]
  show ?thesis
  proof
    assume same: "fst (translation_page_render s ap2 u ud2 t sub now f2) = f2"
    show ?thesis
    proof (cases "get_assigned ?ud = []")
      case False
      then have "fst (translation_page s u t sub now file) = file"
        using same by (simp add: run f2_def)
      then show ?thesis by (rule disjI1)
    next
      case True
      then have f: "fst (translation_page s u t sub now file) = Some ap2"
        using same by (simp add: run f2_def)
      have "\<exists>store' r' ud2'.
              fst (translation_page s u t sub now file) = Some store' \<and>
              (\<forall>v. v \<noteq> u \<longrightarrow> dict_get store' v = dict_get ?L v) \<and>
              dict_get store' u = Some r' \<and>
              ((get_assigned ?ud \<noteq> [] \<and> ud2' = ?ud) \<or>
               (get_assigned ?ud = [] \<and> (\<exists>p. ud2' = ?ud\<lparr>assigned := Some (py_range (int p * 100)
                        (min (int p * 100 + 100) (int (length s))))\<rparr>))) \<and>
              (r' = ud2' \<or>
               (\<exists>X. r' = ud2'\<lparr>translations' := X, index := Some (get_index ud2' + 1)\<rparr> \<and>
                    get_index ud2' < int (length (get_assigned ud2'))))"
        by (intro exI [of _ ap2] exI [of _ ud2] conjI f frame2 get2 rel2 disjI1 refl)
      then show ?thesis by (rule disjI2)
    qed
  next
    assume "\<exists>as idx sentence.
      assigned ud2 = Some as \<and> as \<noteq> [] \<and> get_index ud2 < int (length as) \<and>
      py_getitem as (get_index ud2) = Inr idx \<and> py_getitem s idx = Inr sentence \<and>
      sub \<and> strip t \<noteq> [] \<and>
      translation_page_render s ap2 u ud2 t sub now f2 =
        (Some (dict_set ap2 u
           (ud2\<lparr>translations' := Some (dict_set (get_translations ud2) (py_str idx)
                    \<lparr>English = sentence, Translation = strip t, Timestamp = now\<rparr>),
                index := Some (get_index ud2 + 1)\<rparr>)),
         Inr Submitted)"
    then obtain as X where as: "assigned ud2 = Some as" and lt: "get_index ud2 < int (length as)"
      and r: "translation_page_render s ap2 u ud2 t sub now f2 =
            (Some (dict_set ap2 u (ud2\<lparr>translations' := X, index := Some (get_index ud2 + 1)\<rparr>)),
             Inr Submitted)"
      by (elim exE conjE) (rule that)
    let ?ud3 = "ud2\<lparr>translations' := X, index := Some (get_index ud2 + 1)\<rparr>"
    let ?ap3 = "dict_set ap2 u ?ud3"
    have f: "fst (translation_page s u t sub now file) = Some ?ap3" by (simp add: run r)
    have g: "dict_get ?ap3 u = Some ?ud3" by (simp add: dict_get_set)
    have fr: "\<forall>v. v \<noteq> u \<longrightarrow> dict_get ?ap3 v = dict_get ?L v"
      using frame2 by (simp add: dict_get_set)
    have lt': "get_index ud2 < int (length (get_assigned ud2))"
      using lt as by (simp add: get_assigned_def)
    have sub: "?ud3 = ud2 \<or> (\<exists>X. ?ud3 = ud2\<lparr>translations' := X, index := Some (get_index ud2 + 1)\<rparr> \<and>
                    get_index ud2 < int (length (get_assigned ud2)))"
      using lt' by blast
    have "\<exists>store' r' ud2'.
              fst (translation_page s u t sub now file) = Some store' \<and>
              (\<forall>v. v \<noteq> u \<longrightarrow> dict_get store' v = dict_get ?L v) \<and>
              dict_get store' u = Some r' \<and>
              ((get_assigned ?ud \<noteq> [] \<and> ud2' = ?ud) \<or>
               (get_assigned ?ud = [] \<and> (\<exists>p. ud2' = ?ud\<lparr>assigned := Some (py_range (int p * 100)
                        (min (int p * 100 + 100) (int (length s))))\<rparr>))) \<and>
              (r' = ud2' \<or>
               (\<exists>X. r' = ud2'\<lparr>translations' := X, index := Some (get_index ud2' + 1)\<rparr> \<and>
                    get_index ud2' < int (length (get_assigned ud2'))))"
      by (intro exI [of _ ?ap3] exI [of _ ?ud3] exI [of _ ud2] conjI f fr g rel2 sub)
    then show ?thesis by (rule disjI2)
  qed
qed


lemma loaded_record:
  assumes "dict_get (load_user_progress file) v = Some r"
  shows "\<exists>data r0. file = Some data \<and> dict_get data v = Some r0 \<and> r = fill_defaults r0"
proof (cases "file")
  case None
  with assms show ?thesis by (simp add: load_None)
next
  case (Some data)
  with assms show ?thesis by (auto simp: dict_get_load)
qed

lemma get_fill_defaults:
  "get_assigned (fill_defaults r) = get_assigned r"
  "get_index (fill_defaults r) = get_index r"
  "get_translations (fill_defaults r) = get_translations r"
  by (simp_all add: get_assigned_def get_index_def get_translations_def fill_defaults_fields
        split: option.splits)

lemma translation_page_preserves:
  assumes inv: "\<And>data v r. pf = Some data \<Longrightarrow> dict_get data v = Some r \<Longrightarrow> P r"
    and fill: "\<And>r. P r \<Longrightarrow> P (fill_defaults r)"
    and new: "P new_record"
    and assign: "\<And>r a n. P r \<Longrightarrow> get_assigned r = []
                  \<Longrightarrow> P (r\<lparr>assigned := Some (py_range a (min (a + 100) n))\<rparr>)"
    and submit: "\<And>r X. P r \<Longrightarrow> get_index r < int (length (get_assigned r))
                  \<Longrightarrow> P (r\<lparr>translations' := X, index := Some (get_index r + 1)\<rparr>)"
    and res: "fst (translation_page s u t sub now pf) = Some data'"
    and get: "dict_get data' v = Some r'"
  shows "P r'"
proof -
  let ?L = "load_user_progress pf"
  let ?ud = "case dict_get ?L u of None \<Rightarrow> new_record | Some r \<Rightarrow> r"
  have loaded: "\<And>w r. dict_get ?L w = Some r \<Longrightarrow> P r"
  proof -
    fix w r assume "dict_get ?L w = Some r"
    then obtain data r0 where "pf = Some data" "dict_get data w = Some r0" "r = fill_defaults r0"
      using loaded_record by blast
    then show "P r" using inv fill by simp
  qed
  have Pud: "P ?ud" using new loaded by (simp split: option.splits)
  from translation_page_lookup [of s u t sub now pf]
  show ?thesis
  proof
    assume "fst (translation_page s u t sub now pf) = pf"
    then have "pf = Some data'" using res by simp
    then show ?thesis using inv get by simp
  next
    assume "\<exists>store' r' ud2.
      fst (translation_page s u t sub now pf) = Some store' \<and>
      (\<forall>v. v \<noteq> u \<longrightarrow> dict_get store' v = dict_get ?L v) \<and>
      dict_get store' u = Some r' \<and>
      ((get_assigned ?ud \<noteq> [] \<and> ud2 = ?ud) \<or>
       (get_assigned ?ud = [] \<and>
        (\<exists>p. ud2 = ?ud\<lparr>assigned := Some (py_range (int p * 100)
                        (min (int p * 100 + 100) (int (length s))))\<rparr>))) \<and>
      (r' = ud2 \<or>
       (\<exists>X. r' = ud2\<lparr>translations' := X, index := Some (get_index ud2 + 1)\<rparr> \<and>
            get_index ud2 < int (length (get_assigned ud2))))"
    then obtain store' r'' ud2 where
      f: "fst (translation_page s u t sub now pf) = Some store'" and
      frame: "\<forall>v. v \<noteq> u \<longrightarrow> dict_get store' v = dict_get ?L v" and
      g: "dict_get store' u = Some r''" and
      rel2: "(get_assigned ?ud \<noteq> [] \<and> ud2 = ?ud) \<or>
       (get_assigned ?ud = [] \<and>
        (\<exists>p. ud2 = ?ud\<lparr>assigned := Some (py_range (int p * 100)
                        (min (int p * 100 + 100) (int (length s))))\<rparr>))" and
      rel3: "r'' = ud2 \<or>
       (\<exists>X. r'' = ud2\<lparr>translations' := X, index := Some (get_index ud2 + 1)\<rparr> \<and>
            get_index ud2 < int (length (get_assigned ud2)))"
      by (elim exE conjE)
    have st: "store' = data'" using f res by simp
    have P2: "P ud2"
      using rel2
    proof
      assume "get_assigned ?ud \<noteq> [] \<and> ud2 = ?ud"
      then show ?thesis using Pud by simp
    next
      assume "get_assigned ?ud = [] \<and>
        (\<exists>p. ud2 = ?ud\<lparr>assigned := Some (py_range (int p * 100)
                        (min (int p * 100 + 100) (int (length s))))\<rparr>)"
      then obtain p where e: "get_assigned ?ud = []" and
        u2: "ud2 = ?ud\<lparr>assigned := Some (py_range (int p * 100)
                        (min (int p * 100 + 100) (int (length s))))\<rparr>"
        by (elim exE conjE)
      show ?thesis unfolding u2 by (rule assign [OF Pud e])
    qed
    have P3: "P r''"
      using rel3
    proof
      assume "r'' = ud2" then show ?thesis using P2 by simp
    next
      assume "\<exists>X. r'' = ud2\<lparr>translations' := X, index := Some (get_index ud2 + 1)\<rparr> \<and>
            get_index ud2 < int (length (get_assigned ud2))"
      then obtain X where r3: "r'' = ud2\<lparr>translations' := X, index := Some (get_index ud2 + 1)\<rparr>"
        and lt: "get_index ud2 < int (length (get_assigned ud2))"
        by (elim exE conjE)
      show ?thesis unfolding r3 by (rule submit [OF P2 lt])
    qed
    show ?thesis
    proof (cases "v = u")
      case True
      then have "r' = r''" using g get st by simp
      then show ?thesis using P3 by simp
    next
      case False
      then have "dict_get ?L v = Some r'" using frame get st by simp
      then show ?thesis by (rule loaded)
    qed
  qed
qed

lemma metadata_page_preserves:
  assumes inv: "\<And>data v r. pf = Some data \<Longrightarrow> dict_get data v = Some r \<Longrightarrow> P r"
    and fill: "\<And>r. P r \<Longrightarrow> P (fill_defaults r)"
    and empty: "P empty_record"
    and meta: "\<And>r M. P r \<Longrightarrow> P (r\<lparr>metadata := M\<rparr>)"
    and res: "fst (metadata_page u name sex age gmail country save pf) = Some data'"
    and get: "dict_get data' v = Some r'"
  shows "P r'"
proof -
  let ?L = "load_user_progress pf"
  let ?ud = "case dict_get ?L u of None \<Rightarrow> empty_record | Some d \<Rightarrow> d"
  let ?M = "Some [(''name'', MStr name), (''sex'', MStr sex), (''age'', MInt age),
                  (''gmail'', MStr gmail), (''country'', MStr country)]"
  have loaded: "\<And>w r. dict_get ?L w = Some r \<Longrightarrow> P r"
  proof -
    fix w r assume "dict_get ?L w = Some r"
    then obtain data r0 where "pf = Some data" "dict_get data w = Some r0" "r = fill_defaults r0"
      using loaded_record by blast
    then show "P r" using inv fill by simp
  qed
  have Pud: "P ?ud" using empty loaded by (simp split: option.splits)
  from metadata_page_file [of u name sex age gmail country save pf]
  show ?thesis
  proof
    assume "fst (metadata_page u name sex age gmail country save pf) = pf"
    then have "pf = Some data'" using res by simp
    then show ?thesis using inv get by simp
  next
    assume "metadata_page u name sex age gmail country save pf
       = (Some (dict_set ?L u (?ud\<lparr>metadata := ?M\<rparr>)), Inr MetadataSaved)"
    then have st: "data' = dict_set ?L u (?ud\<lparr>metadata := ?M\<rparr>)" using res by simp
    show ?thesis
    proof (cases "v = u")
      case True
      then have "r' = ?ud\<lparr>metadata := ?M\<rparr>" using get st by (simp add: dict_get_set)
      then show ?thesis using meta [OF Pud] by simp
    next
      case False
      then have "dict_get ?L v = Some r'" using get st by (simp add: dict_get_set)
      then show ?thesis by (rule loaded)
    qed
  qed
qed

lemma py_range_0_2: "py_range 0 2 = [0, 1]"
  by (simp add: py_range_def upto.simps)

lemma first_run_ex:
  "fst (translation_page [''good morning'', ''thank you''] ''ade'' [] False [] None)
     = Some [(''ade'', \<lparr>translations' = Some [], metadata = Some [],
                        assigned = Some [0, 1], index = Some 0\<rparr>)]"
  by (simp add: translation_page_def store_with_user_def load_user_progress_def
        dict_contains_def new_record_def dict_item_def translation_page_assign_def
        dict_keys_def translation_page_render_def save_user_progress_def py_truediv_def
        py_getitem_def get_translations_def get_index_def Let_def py_range_0_2)

lemma second_run_ex:
  "fst (translation_page [''good morning'', ''thank you''] ''ade'' '' hi'' True ''t1''
          (Some [(''ade'', \<lparr>translations' = Some [], metadata = Some [],
                            assigned = Some [0, 1], index = Some 0\<rparr>)]))
     = Some [(''ade'', \<lparr>translations' = Some [(''0'', \<lparr>English = ''good morning'',
                            Translation = ''hi'', Timestamp = ''t1''\<rparr>)],
                        metadata = Some [], assigned = Some [0, 1], index = Some 1\<rparr>)]"
  by (simp add: translation_page_def store_with_user_def load_user_progress_def
        fill_defaults_def dict_contains_def dict_item_def translation_page_assign_def
        translation_page_render_def save_user_progress_def py_truediv_def py_getitem_def
        get_translations_def get_index_def Let_def py_str_0 strip_ex3)

lemma reachable_ex:
  "reachable (Some [(''ade'', \<lparr>translations' = Some [(''0'', \<lparr>English = ''good morning'',
                            Translation = ''hi'', Timestamp = ''t1''\<rparr>)],
                        metadata = Some [], assigned = Some [0, 1], index = Some 1\<rparr>)])"
proof -
  have "reachable None" by (rule runs_to.no_run)
  then have "reachable (fst (translation_page [''good morning'', ''thank you''] ''ade''
                               [] False [] None))"
    by (rule runs_to.translation_run)
  then have "reachable (Some [(''ade'', \<lparr>translations' = Some [], metadata = Some [],
                        assigned = Some [0, 1], index = Some 0\<rparr>)])"
    by (simp only: first_run_ex)
  then have "reachable (fst (translation_page [''good morning'', ''thank you''] ''ade''
          '' hi'' True ''t1''
          (Some [(''ade'', \<lparr>translations' = Some [], metadata = Some [],
                            assigned = Some [0, 1], index = Some 0\<rparr>)])))"
    by (rule runs_to.translation_run)
  then show ?thesis by (simp only: second_run_ex)
qed

text \<open>
  C4.  In every reachable progress file, the cursor of every user's record is at least 0
  and at most the length of that record's \<^verbatim>\<open>assigned\<close> list (both read with their
  defaults, 0 and the empty list, when the key is missing).  The cursor starts at 0, a
  submission raises it by one only when it is below that length, and neither the
  assignment, which is made only for an empty list, nor the Metadata view changes it.
\<close>

theorem index_within_assigned:
  assumes "reachable file" and "file = Some data" and "dict_get data v = Some r"
  shows "0 \<le> get_index r \<and> get_index r \<le> int (length (get_assigned r))"
  using assms
proof (induction arbitrary: data v r rule: runs_to.induct)
  case no_run
  then show ?case by simp
next
  case (metadata_run file' username name sex age gmail country save)
  show ?case
  proof (rule metadata_page_preserves
      [where P = "\<lambda>r. 0 \<le> get_index r \<and> get_index r \<le> int (length (get_assigned r))"
         and pf = file' and u = username and name = name and sex = sex and age = age
         and gmail = gmail and country = country and save = save and data' = data and v = v])
    show "\<And>data v r. file' = Some data \<Longrightarrow> dict_get data v = Some r
            \<Longrightarrow> 0 \<le> get_index r \<and> get_index r \<le> int (length (get_assigned r))"
      by (rule metadata_run.IH)
    show "\<And>r. 0 \<le> get_index r \<and> get_index r \<le> int (length (get_assigned r))
            \<Longrightarrow> 0 \<le> get_index (fill_defaults r) \<and>
                get_index (fill_defaults r) \<le> int (length (get_assigned (fill_defaults r)))"
      by (simp add: get_fill_defaults)
    show "0 \<le> get_index empty_record \<and>
          get_index empty_record \<le> int (length (get_assigned empty_record))"
      by (simp add: get_index_def get_assigned_def empty_record_def)
    show "\<And>r M. 0 \<le> get_index r \<and> get_index r \<le> int (length (get_assigned r))
            \<Longrightarrow> 0 \<le> get_index (r\<lparr>metadata := M\<rparr>) \<and>
                get_index (r\<lparr>metadata := M\<rparr>) \<le> int (length (get_assigned (r\<lparr>metadata := M\<rparr>)))"
      by (simp add: get_index_def get_assigned_def)
    show "fst (metadata_page username name sex age gmail country save file') = Some data"
      by (rule metadata_run.prems(1))
    show "dict_get data v = Some r" by (rule metadata_run.prems(2))
  qed
next
  case (translation_run file' sentences username translation submit now)
  show ?case
  proof (rule translation_page_preserves
      [where P = "\<lambda>r. 0 \<le> get_index r \<and> get_index r \<le> int (length (get_assigned r))"
         and pf = file' and u = username and s = sentences and t = translation
         and sub = submit and now = now and data' = data and v = v])
    show "\<And>data v r. file' = Some data \<Longrightarrow> dict_get data v = Some r
            \<Longrightarrow> 0 \<le> get_index r \<and> get_index r \<le> int (length (get_assigned r))"
      by (rule translation_run.IH)
    show "\<And>r. 0 \<le> get_index r \<and> get_index r \<le> int (length (get_assigned r))
            \<Longrightarrow> 0 \<le> get_index (fill_defaults r) \<and>
                get_index (fill_defaults r) \<le> int (length (get_assigned (fill_defaults r)))"
      by (simp add: get_fill_defaults)
    show "0 \<le> get_index new_record \<and>
          get_index new_record \<le> int (length (get_assigned new_record))"
      by (simp add: get_index_def get_assigned_def new_record_def)
    show "\<And>r a n. 0 \<le> get_index r \<and> get_index r \<le> int (length (get_assigned r))
            \<Longrightarrow> get_assigned r = []
            \<Longrightarrow> 0 \<le> get_index (r\<lparr>assigned := Some (py_range a (min (a + 100) n))\<rparr>) \<and>
                get_index (r\<lparr>assigned := Some (py_range a (min (a + 100) n))\<rparr>)
                  \<le> int (length (get_assigned
                        (r\<lparr>assigned := Some (py_range a (min (a + 100) n))\<rparr>)))"
      by (simp add: get_index_def get_assigned_def)
    show "\<And>r X. 0 \<le> get_index r \<and> get_index r \<le> int (length (get_assigned r))
            \<Longrightarrow> get_index r < int (length (get_assigned r))
            \<Longrightarrow> 0 \<le> get_index (r\<lparr>translations' := X, index := Some (get_index r + 1)\<rparr>) \<and>
                get_index (r\<lparr>translations' := X, index := Some (get_index r + 1)\<rparr>)
                  \<le> int (length (get_assigned
                        (r\<lparr>translations' := X, index := Some (get_index r + 1)\<rparr>)))"
      by (simp add: get_index_def get_assigned_def)
    show "fst (translation_page sentences username translation submit now file') = Some data"
      by (rule translation_run.prems(1))
    show "dict_get data v = Some r" by (rule translation_run.prems(2))
  qed
qed

theorem index_within_assigned_witness:
  "reachable (Some [(''ade'', \<lparr>translations' = Some [(''0'', \<lparr>English = ''good morning'',
                            Translation = ''hi'', Timestamp = ''t1''\<rparr>)],
                        metadata = Some [], assigned = Some [0, 1], index = Some 1\<rparr>)]) \<and>
   0 \<le> get_index \<lparr>translations' = Some [(''0'', \<lparr>English = ''good morning'',
                            Translation = ''hi'', Timestamp = ''t1''\<rparr>)],
                        metadata = Some [], assigned = Some [0, 1], index = Some 1\<rparr> \<and>
   get_index \<lparr>translations' = Some [(''0'', \<lparr>English = ''good morning'',
                            Translation = ''hi'', Timestamp = ''t1''\<rparr>)],
                        metadata = Some [], assigned = Some [0, 1], index = Some 1\<rparr>
     \<le> int (length (get_assigned \<lparr>translations' = Some [(''0'', \<lparr>English = ''good morning'',
                            Translation = ''hi'', Timestamp = ''t1''\<rparr>)],
                        metadata = Some [], assigned = Some [0, 1], index = Some 1\<rparr>))"
proof -
  let ?r = "\<lparr>translations' = Some [(''0'', \<lparr>English = ''good morning'',
                            Translation = ''hi'', Timestamp = ''t1''\<rparr>)],
                        metadata = Some [], assigned = Some [0, 1], index = Some 1\<rparr>"
  have get: "dict_get [(''ade'', ?r)] ''ade'' = Some ?r" by simp
  show ?thesis
    using reachable_ex index_within_assigned [OF reachable_ex refl get] by simp
qed

subsection \<open>The assigned list over time\<close>

lemma assigned_fill_defaults: "get_assigned r \<noteq> [] \<Longrightarrow> assigned (fill_defaults r) = assigned r"
  by (simp add: fill_defaults_fields get_assigned_def split: option.splits)

lemma translation_page_keeps_assigned:
  assumes pf: "pf = Some data" and rec: "dict_get data v = Some r" and ne: "get_assigned r \<noteq> []"
  shows "\<exists>data' r'. fst (translation_page s u t sub now pf) = Some data' \<and>
           dict_get data' v = Some r' \<and> assigned r' = assigned r"
proof -
  let ?L = "load_user_progress pf"
  let ?ud = "case dict_get ?L u of None \<Rightarrow> new_record | Some r \<Rightarrow> r"
  have loaded: "dict_get ?L v = Some (fill_defaults r)"
    using pf rec by (simp add: dict_get_load)
  have same: "assigned (fill_defaults r) = assigned r" by (rule assigned_fill_defaults [OF ne])
  from translation_page_lookup [of s u t sub now pf]
  show ?thesis
  proof
    assume "fst (translation_page s u t sub now pf) = pf"
    then show ?thesis using pf rec by simp
  next
    assume "\<exists>store' r' ud2.
      fst (translation_page s u t sub now pf) = Some store' \<and>
      (\<forall>v. v \<noteq> u \<longrightarrow> dict_get store' v = dict_get ?L v) \<and>
      dict_get store' u = Some r' \<and>
      ((get_assigned ?ud \<noteq> [] \<and> ud2 = ?ud) \<or>
       (get_assigned ?ud = [] \<and>
        (\<exists>p. ud2 = ?ud\<lparr>assigned := Some (py_range (int p * 100)
                        (min (int p * 100 + 100) (int (length s))))\<rparr>))) \<and>
      (r' = ud2 \<or>
       (\<exists>X. r' = ud2\<lparr>translations' := X, index := Some (get_index ud2 + 1)\<rparr> \<and>
            get_index ud2 < int (length (get_assigned ud2))))"
    then obtain store' r'' ud2 where
      f: "fst (translation_page s u t sub now pf) = Some store'" and
      frame: "\<forall>v. v \<noteq> u \<longrightarrow> dict_get store' v = dict_get ?L v" and
      g: "dict_get store' u = Some r''" and
      rel2: "(get_assigned ?ud \<noteq> [] \<and> ud2 = ?ud) \<or>
       (get_assigned ?ud = [] \<and>
        (\<exists>p. ud2 = ?ud\<lparr>assigned := Some (py_range (int p * 100)
                        (min (int p * 100 + 100) (int (length s))))\<rparr>))" and
      rel3: "r'' = ud2 \<or>
       (\<exists>X. r'' = ud2\<lparr>translations' := X, index := Some (get_index ud2 + 1)\<rparr> \<and>
            get_index ud2 < int (length (get_assigned ud2)))"
      by (elim exE conjE)
    show ?thesis
    proof (cases "v = u")
      case False
      then have "dict_get store' v = Some (fill_defaults r)" using frame loaded by simp
      then show ?thesis using f same by simp
    next
      case True
      then have ud: "?ud = fill_defaults r" using loaded by simp
      then have "get_assigned ?ud \<noteq> []" using ne by (simp add: get_fill_defaults)
      then have u2: "ud2 = fill_defaults r" using rel2 ud by simp
      have "assigned r'' = assigned ud2" using rel3 by auto
      then have "assigned r'' = assigned r" using u2 same by simp
      then show ?thesis using f g True by simp
    qed
  qed
qed

lemma metadata_page_keeps_assigned:
  assumes pf: "pf = Some data" and rec: "dict_get data v = Some r" and ne: "get_assigned r \<noteq> []"
  shows "\<exists>data' r'. fst (metadata_page u name sex age gmail country save pf) = Some data' \<and>
           dict_get data' v = Some r' \<and> assigned r' = assigned r"
proof -
  let ?L = "load_user_progress pf"
  let ?ud = "case dict_get ?L u of None \<Rightarrow> empty_record | Some d \<Rightarrow> d"
  let ?M = "Some [(''name'', MStr name), (''sex'', MStr sex), (''age'', MInt age),
                  (''gmail'', MStr gmail), (''country'', MStr country)]"
  have loaded: "dict_get ?L v = Some (fill_defaults r)"
    using pf rec by (simp add: dict_get_load)
  have same: "assigned (fill_defaults r) = assigned r" by (rule assigned_fill_defaults [OF ne])
  from metadata_page_file [of u name sex age gmail country save pf]
  show ?thesis
  proof
    assume "fst (metadata_page u name sex age gmail country save pf) = pf"
    then show ?thesis using pf rec by simp
  next
    assume "metadata_page u name sex age gmail country save pf
       = (Some (dict_set ?L u (?ud\<lparr>metadata := ?M\<rparr>)), Inr MetadataSaved)"
    then have f: "fst (metadata_page u name sex age gmail country save pf)
                    = Some (dict_set ?L u (?ud\<lparr>metadata := ?M\<rparr>))" by simp
    show ?thesis
    proof (cases "v = u")
      case False
      then have "dict_get (dict_set ?L u (?ud\<lparr>metadata := ?M\<rparr>)) v = Some (fill_defaults r)"
        using loaded by (simp add: dict_get_set)
      then show ?thesis using f same by simp
    next
      case True
      then have ud: "?ud = fill_defaults r" using loaded by simp
      have "dict_get (dict_set ?L u (?ud\<lparr>metadata := ?M\<rparr>)) v = Some (?ud\<lparr>metadata := ?M\<rparr>)"
        using True by (simp add: dict_get_set)
      moreover have "assigned (?ud\<lparr>metadata := ?M\<rparr>) = assigned r" using ud same by simp
      ultimately show ?thesis using f by simp
    qed
  qed
qed

lemma assigned_frozen:
  assumes "runs_to start file'" and "start = Some data" and "dict_get data v = Some r"
    and "get_assigned r \<noteq> []"
  shows "\<exists>data' r'. file' = Some data' \<and> dict_get data' v = Some r' \<and> assigned r' = assigned r"
  using assms
proof (induction rule: runs_to.induct)
  case no_run
  then show ?case by simp
next
  case (metadata_run f username name sex age gmail country save)
  then obtain d1 r1 where d1: "f = Some d1" "dict_get d1 v = Some r1" "assigned r1 = assigned r"
    by blast
  then have "get_assigned r1 \<noteq> []" using metadata_run.prems(3) by (simp add: get_assigned_def)
  from metadata_page_keeps_assigned [OF d1(1) d1(2) this, of username name sex age gmail country save]
  show ?case using d1(3) by auto
next
  case (translation_run f sentences username translation submit now)
  then obtain d1 r1 where d1: "f = Some d1" "dict_get d1 v = Some r1" "assigned r1 = assigned r"
    by blast
  then have "get_assigned r1 \<noteq> []" using translation_run.prems(3) by (simp add: get_assigned_def)
  from translation_page_keeps_assigned [OF d1(1) d1(2) this, of sentences username translation submit now]
  show ?case using d1(3) by auto
qed

lemma assigned_bounded:
  assumes "reachable file" and "file = Some data" and "dict_get data v = Some r"
  shows "length (get_assigned r) \<le> 100"
  using assms
proof (induction arbitrary: data v r rule: runs_to.induct)
  case no_run
  then show ?case by simp
next
  case (metadata_run file' username name sex age gmail country save)
  show ?case
  proof (rule metadata_page_preserves
      [where P = "\<lambda>r. length (get_assigned r) \<le> 100"
         and pf = file' and u = username and name = name and sex = sex and age = age
         and gmail = gmail and country = country and save = save and data' = data and v = v])
    show "\<And>data v r. file' = Some data \<Longrightarrow> dict_get data v = Some r
            \<Longrightarrow> length (get_assigned r) \<le> 100"
      by (rule metadata_run.IH)
    show "\<And>r. length (get_assigned r) \<le> 100 \<Longrightarrow> length (get_assigned (fill_defaults r)) \<le> 100"
      by (simp add: get_fill_defaults)
    show "length (get_assigned empty_record) \<le> 100"
      by (simp add: get_assigned_def empty_record_def)
    show "\<And>r M. length (get_assigned r) \<le> 100
            \<Longrightarrow> length (get_assigned (r\<lparr>metadata := M\<rparr>)) \<le> 100"
      by (simp add: get_assigned_def)
    show "fst (metadata_page username name sex age gmail country save file') = Some data"
      by (rule metadata_run.prems(1))
    show "dict_get data v = Some r" by (rule metadata_run.prems(2))
  qed
next
  case (translation_run file' sentences username translation submit now)
  show ?case
  proof (rule translation_page_preserves
      [where P = "\<lambda>r. length (get_assigned r) \<le> 100"
         and pf = file' and u = username and s = sentences and t = translation
         and sub = submit and now = now and data' = data and v = v])
    show "\<And>data v r. file' = Some data \<Longrightarrow> dict_get data v = Some r
            \<Longrightarrow> length (get_assigned r) \<le> 100"
      by (rule translation_run.IH)
    show "\<And>r. length (get_assigned r) \<le> 100 \<Longrightarrow> length (get_assigned (fill_defaults r)) \<le> 100"
      by (simp add: get_fill_defaults)
    show "length (get_assigned new_record) \<le> 100"
      by (simp add: get_assigned_def new_record_def)
    show "\<And>r a n. length (get_assigned r) \<le> 100 \<Longrightarrow> get_assigned r = []
            \<Longrightarrow> length (get_assigned (r\<lparr>assigned := Some (py_range a (min (a + 100) n))\<rparr>))
                  \<le> 100"
      by (simp add: get_assigned_def length_py_range)
    show "\<And>r X. length (get_assigned r) \<le> 100
            \<Longrightarrow> get_index r < int (length (get_assigned r))
            \<Longrightarrow> length (get_assigned (r\<lparr>translations' := X, index := Some (get_index r + 1)\<rparr>))
                  \<le> 100"
      by (simp add: get_assigned_def)
    show "fst (translation_page sentences username translation submit now file') = Some data"
      by (rule translation_run.prems(1))
    show "dict_get data v = Some r" by (rule translation_run.prems(2))
  qed
qed

lemma later_run_ex:
  "runs_to (Some [(''ade'', \<lparr>translations' = Some [], metadata = Some [],
                            assigned = Some [0, 1], index = Some 0\<rparr>)])
           (Some [(''ade'', \<lparr>translations' = Some [(''0'', \<lparr>English = ''good morning'',
                            Translation = ''hi'', Timestamp = ''t1''\<rparr>)],
                        metadata = Some [], assigned = Some [0, 1], index = Some 1\<rparr>)])"
proof -
  let ?f = "Some [(''ade'', \<lparr>translations' = Some [], metadata = Some [],
                            assigned = Some [0, 1], index = Some 0\<rparr>)]"
  have "runs_to ?f ?f" by (rule runs_to.no_run)
  then have "runs_to ?f (fst (translation_page [''good morning'', ''thank you''] ''ade''
          '' hi'' True ''t1'' ?f))"
    by (rule runs_to.translation_run)
  then show ?thesis by (simp only: second_run_ex)
qed

lemma reachable_first_ex:
  "reachable (Some [(''ade'', \<lparr>translations' = Some [], metadata = Some [],
                        assigned = Some [0, 1], index = Some 0\<rparr>)])"
proof -
  have "reachable None" by (rule runs_to.no_run)
  then have "reachable (fst (translation_page [''good morning'', ''thank you''] ''ade''
                               [] False [] None))"
    by (rule runs_to.translation_run)
  then show ?thesis by (simp only: first_run_ex)
qed

lemma py_range_100_50: "py_range 100 50 = []"
  by (simp add: py_range_def)

lemma py_range_100_103: "py_range 100 103 = [100, 101, 102]"
  by (simp add: py_range_def upto.simps)

text \<open>
  C9, as amended.  In every reachable progress file each user's \<^verbatim>\<open>assigned\<close> list has
  at most 100 indices, and a list that is not empty is frozen: after any further sequence
  of runs of the Translate and Metadata views (visits, submissions, metadata saves, by
  any users, with any sentence lists) the user still has a record, with the same
  \<^verbatim>\<open>assigned\<close> list.
\<close>

theorem assigned_bounded_and_frozen:
  assumes "reachable file" and "runs_to file file'"
    and "file = Some data" and "dict_get data v = Some r"
  shows "length (get_assigned r) \<le> 100 \<and>
         (get_assigned r \<noteq> [] \<longrightarrow>
            (\<exists>data' r'. file' = Some data' \<and> dict_get data' v = Some r' \<and>
                         assigned r' = assigned r))"
proof
  show "length (get_assigned r) \<le> 100"
    by (rule assigned_bounded [OF assms(1) assms(3) assms(4)])
  show "get_assigned r \<noteq> [] \<longrightarrow>
            (\<exists>data' r'. file' = Some data' \<and> dict_get data' v = Some r' \<and>
                         assigned r' = assigned r)"
  proof
    assume "get_assigned r \<noteq> []"
    then show "\<exists>data' r'. file' = Some data' \<and> dict_get data' v = Some r' \<and>
                 assigned r' = assigned r"
      by (rule assigned_frozen [OF assms(2) assms(3) assms(4)])
  qed
qed

theorem assigned_bounded_and_frozen_witness:
  "reachable (Some [(''ade'', \<lparr>translations' = Some [], metadata = Some [],
                        assigned = Some [0, 1], index = Some 0\<rparr>)]) \<and>
   length (get_assigned \<lparr>translations' = Some [], metadata = Some [],
                        assigned = Some [0, 1], index = Some 0\<rparr>) \<le> 100 \<and>
   (\<exists>r'. dict_get [(''ade'', \<lparr>translations' = Some [(''0'', \<lparr>English = ''good morning'',
                            Translation = ''hi'', Timestamp = ''t1''\<rparr>)],
                        metadata = Some [], assigned = Some [0, 1], index = Some 1\<rparr>)] ''ade''
            = Some r' \<and> assigned r' = Some [0, 1])"
proof -
  let ?r = "\<lparr>translations' = Some [], metadata = Some [],
             assigned = Some [0, 1], index = Some 0\<rparr>"
  have get: "dict_get [(''ade'', ?r)] ''ade'' = Some ?r" by simp
  show ?thesis
    using reachable_first_ex
      assigned_bounded_and_frozen [OF reachable_first_ex later_run_ex refl get]
    by (simp add: get_assigned_def)
qed

text \<open>
  The claim C9 as first stated ("computed at most once, and never changed once computed")
  fails for an assignment that was computed empty: the test of line 101 takes an empty
  list for "not assigned yet", so the list is computed again at every later visit.  With
  50 sentences the second user \<open>bola\<close> is assigned the empty list, which is stored; at a
  later visit, when the source has 103 sentences, the stored list becomes 100, 101, 102.
\<close>

theorem assigned_recomputed_counterexample:
  "fst (translation_page (replicate 50 ''s'') ''bola'' [] False []
          (Some [(''ade'', \<lparr>translations' = Some [], metadata = Some [],
                            assigned = Some (py_range 0 50), index = Some 0\<rparr>)]))
     = Some [(''ade'', \<lparr>translations' = Some [], metadata = Some [],
                        assigned = Some (py_range 0 50), index = Some 0\<rparr>),
             (''bola'', \<lparr>translations' = Some [], metadata = Some [],
                         assigned = Some [], index = Some 0\<rparr>)] \<and>
   fst (translation_page (replicate 103 ''s'') ''bola'' [] False []
          (Some [(''ade'', \<lparr>translations' = Some [], metadata = Some [],
                            assigned = Some (py_range 0 50), index = Some 0\<rparr>),
                 (''bola'', \<lparr>translations' = Some [], metadata = Some [],
                             assigned = Some [], index = Some 0\<rparr>)]))
     = Some [(''ade'', \<lparr>translations' = Some [], metadata = Some [],
                        assigned = Some (py_range 0 50), index = Some 0\<rparr>),
             (''bola'', \<lparr>translations' = Some [], metadata = Some [],
                         assigned = Some [100, 101, 102], index = Some 0\<rparr>)]"
  by (simp add: translation_page_def store_with_user_def load_user_progress_def
        fill_defaults_def dict_contains_def new_record_def dict_item_def
        translation_page_assign_def dict_keys_def translation_page_render_def
        save_user_progress_def py_truediv_def py_getitem_def get_translations_def
        get_index_def Let_def py_range_100_50 py_range_100_103)

end
